theory Spec2Isabelle
  imports Main "HOL-Library.AList"
begin

section \<open>Python values\<close>

text \<open>
  The decoders of \<^verbatim>\<open>cookpad/types.py\<close> take \<^verbatim>\<open>dict[str, Any]\<close>: whatever
  \<^verbatim>\<open>resp.json()\<close> produced. A value is therefore a JSON value: \<^verbatim>\<open>None\<close>, a bool, an
  int, a str, a list, or a dict with string keys. A dict is an association list; a lookup
  finds the first binding of a key (\<open>map_of\<close>), and a dict that Python can build has
  distinct keys. JSON numbers with a fraction (Python floats) are not part of the model.
  The dataclasses are not checked at run time, so a field holds whatever value the decoder
  put there: the fields of the entities are JSON values too, \<open>JNull\<close> being \<^verbatim>\<open>None\<close>.
\<close>

datatype json =
    JNull
  | JBool bool
  | JInt int
  | JStr string
  | JList "json list"
  | JObj "(string \<times> json) list"

text \<open>
  Exceptions. The built-in ones carry no data in the model; the four of
  \<^verbatim>\<open>cookpad/exceptions.py\<close> carry their message, and \<open>APIError\<close> its status code.
\<close>

datatype exn =
    TypeError
  | AttributeError
  | KeyError
  | JSONDecodeError
  | RuntimeError
  | AuthenticationError string
  | NotFoundError string
  | RateLimitError string
  | APIError string int

text \<open>Truthiness, as \<^verbatim>\<open>if x:\<close> and \<^verbatim>\<open>x or y\<close> test it.\<close>

fun truthy :: "json \<Rightarrow> bool" where
  "truthy JNull = False"
| "truthy (JBool b) = b"
| "truthy (JInt i) = (i \<noteq> 0)"
| "truthy (JStr s) = (s \<noteq> [])"
| "truthy (JList xs) = (xs \<noteq> [])"
| "truthy (JObj kvs) = (kvs \<noteq> [])"

definition py_or :: "json \<Rightarrow> json \<Rightarrow> json" where
  "py_or x y = (if truthy x then x else y)"

text \<open>\<^verbatim>\<open>d.get(k, dflt)\<close> on a dict, and on any value: only a dict has \<^verbatim>\<open>get\<close>.\<close>

definition dict_get :: "(string \<times> json) list \<Rightarrow> string \<Rightarrow> json \<Rightarrow> json" where
  "dict_get kvs k dflt = (case map_of kvs k of None \<Rightarrow> dflt | Some v \<Rightarrow> v)"

fun py_get :: "json \<Rightarrow> string \<Rightarrow> json \<Rightarrow> exn + json" where
  "py_get (JObj kvs) k dflt = Inr (dict_get kvs k dflt)"
| "py_get _ k dflt = Inl AttributeError"

text \<open>\<^verbatim>\<open>x[k]\<close> with a string key: a dict raises KeyError on a missing key, every other
  value raises TypeError (a list or str wants an integer index, the rest has no
  subscript).\<close>

fun py_getitem :: "json \<Rightarrow> string \<Rightarrow> exn + json" where
  "py_getitem (JObj kvs) k = (case map_of kvs k of None \<Rightarrow> Inl KeyError | Some v \<Rightarrow> Inr v)"
| "py_getitem _ k = Inl TypeError"

text \<open>\<^verbatim>\<open>s in t\<close> for two strings: \<open>s\<close> occurs in \<open>t\<close> as a contiguous run.\<close>

fun substring :: "string \<Rightarrow> string \<Rightarrow> bool" where
  "substring s [] = (s = [])"
| "substring s (c # cs) = (take (length s) (c # cs) = s \<or> substring s cs)"

text \<open>\<^verbatim>\<open>k in x\<close> with a string \<open>k\<close>: a key of a dict, an element of a list, a substring
  of a str; \<^verbatim>\<open>None\<close>, a bool and an int are not containers.\<close>

fun py_contains :: "string \<Rightarrow> json \<Rightarrow> exn + bool" where
  "py_contains k (JObj kvs) = Inr (map_of kvs k \<noteq> None)"
| "py_contains k (JList xs) = Inr (JStr k \<in> set xs)"
| "py_contains k (JStr s) = Inr (substring k s)"
| "py_contains k _ = Inl TypeError"

text \<open>\<^verbatim>\<open>for x in v\<close>: the elements of a list, the keys of a dict, the characters of a
  str; anything else is not iterable.\<close>

fun py_iter :: "json \<Rightarrow> exn + json list" where
  "py_iter (JList xs) = Inr xs"
| "py_iter (JObj kvs) = Inr (map (\<lambda>kv. JStr (fst kv)) kvs)"
| "py_iter (JStr s) = Inr (map (\<lambda>c. JStr [c]) s)"
| "py_iter _ = Inl TypeError"

text \<open>A list comprehension \<^verbatim>\<open>[f(x) for x in xs]\<close> whose \<open>f\<close> may raise: the first
  exception ends it.\<close>

fun map_result :: "('a \<Rightarrow> exn + 'b) \<Rightarrow> 'a list \<Rightarrow> exn + 'b list" where
  "map_result f [] = Inr []"
| "map_result f (x # xs) =
     (case f x of
        Inl e \<Rightarrow> Inl e
      | Inr y \<Rightarrow> (case map_result f xs of Inl e \<Rightarrow> Inl e | Inr ys \<Rightarrow> Inr (y # ys)))"

subsection \<open>Decimal text and \<^verbatim>\<open>str()\<close>\<close>

definition digit_char :: "nat \<Rightarrow> char" where
  "digit_char d = ''0123456789'' ! d"

function show_nat :: "nat \<Rightarrow> string" where
  "show_nat n =
     (if n < 10 then [digit_char n] else show_nat (n div 10) @ [digit_char (n mod 10)])"
  by pat_completeness auto
termination
  by (relation "measure id") auto

definition show_int :: "int \<Rightarrow> string" where
  "show_int i = (if i < 0 then CHR ''-'' # show_nat (nat (- i)) else show_nat (nat i))"

fun join :: "string \<Rightarrow> string list \<Rightarrow> string" where
  "join sep [] = []"
| "join sep [x] = x"
| "join sep (x # y # ys) = x @ sep @ join sep (y # ys)"

text \<open>
  \<^verbatim>\<open>repr(v)\<close> of a JSON value. How Python quotes and escapes a str is left to the
  parameter \<open>q\<close> (\<^verbatim>\<open>repr\<close> on str); everything else is as Python prints it.
  \<^verbatim>\<open>str(v)\<close> is \<^verbatim>\<open>repr(v)\<close> except on a str, which it returns unchanged.
\<close>

fun py_repr :: "(string \<Rightarrow> string) \<Rightarrow> json \<Rightarrow> string" where
  "py_repr q JNull = ''None''"
| "py_repr q (JBool b) = (if b then ''True'' else ''False'')"
| "py_repr q (JInt i) = show_int i"
| "py_repr q (JStr s) = q s"
| "py_repr q (JList xs) = ''['' @ join '', '' (map (py_repr q) xs) @ '']''"
| "py_repr q (JObj kvs) =
     ''{'' @ join '', '' (map (\<lambda>(k, v). q k @ '': '' @ py_repr q v) kvs) @ ''}''"


text \<open>\<^verbatim>\<open>str.lower()\<close>, on ASCII letters.\<close>

definition lower_char :: "char \<Rightarrow> char" where
  "lower_char c =
     (case map_of (zip ''ABCDEFGHIJKLMNOPQRSTUVWXYZ'' ''abcdefghijklmnopqrstuvwxyz'') c of
        Some l \<Rightarrow> l
      | None \<Rightarrow> c)"

definition lower :: "string \<Rightarrow> string" where
  "lower s = map lower_char s"

section \<open>The entities of \<^verbatim>\<open>cookpad/types.py\<close>\<close>


record Ingredient =
  Ingredient_name :: json
  Ingredient_quantity :: json
  Ingredient_id :: json
  Ingredient_headline :: json
  Ingredient_sanitized_name :: json

record Step =
  Step_description :: json
  Step_id :: json
  Step_image_url :: json

record User =
  User_id :: json
  User_name :: json
  User_profile_message :: json
  User_image_url :: json
  User_recipe_count :: json
  User_follower_count :: json
  User_followee_count :: json
  User_cookpad_id :: json
  User_href :: json

record Recipe =
  Recipe_id :: json
  Recipe_title :: json
  Recipe_story :: json
  Recipe_serving :: json
  Recipe_cooking_time :: json
  Recipe_published_at :: json
  Recipe_hall_of_fame :: json
  Recipe_cooksnaps_count :: json
  Recipe_image_url :: json
  Recipe_ingredients :: "Ingredient list"
  Recipe_user :: "User option"
  Recipe_advice :: json
  Recipe_bookmarks_count :: json
  Recipe_view_count :: json
  Recipe_comments_count :: json
  Recipe_steps :: "Step list"
  Recipe_href :: json
  Recipe_country :: json
  Recipe_language :: json
  Recipe_premium :: json

record Comment =
  Comment_id :: json
  Comment_body :: json
  Comment_created_at :: json
  Comment_label :: json
  Comment_user :: "User option"
  Comment_image_url :: json
  Comment_cursor :: json
  Comment_likes_count :: json
  Comment_replies_count :: json

record SearchResponse =
  SearchResponse_recipes :: "Recipe list"
  SearchResponse_total_count :: json
  SearchResponse_next_page :: json
  SearchResponse_raw :: json

record CommentsResponse =
  CommentsResponse_comments :: "Comment list"
  CommentsResponse_next_cursor :: json

record UsersResponse =
  UsersResponse_users :: "User list"
  UsersResponse_total_count :: json
  UsersResponse_next_page :: json

section \<open>The decoders\<close>


fun parse_ingredient :: "json \<Rightarrow> exn + Ingredient" where
  "parse_ingredient (JObj kvs) =
     Inr \<lparr> Ingredient_name = dict_get kvs ''name'' (JStr ''''),
           Ingredient_quantity = dict_get kvs ''quantity'' (JStr ''''),
           Ingredient_id = dict_get kvs ''id'' (JInt 0),
           Ingredient_headline = dict_get kvs ''headline'' (JBool False),
           Ingredient_sanitized_name = dict_get kvs ''sanitized_name'' (JStr '''') \<rparr>"
| "parse_ingredient _ = Inl AttributeError"

text \<open>
  The loop of \<open>parse_step\<close> over the attachments. Each of its two branches ends the loop
  with \<^verbatim>\<open>break\<close>: the first on an attachment that contains \<^verbatim>\<open>"url"\<close>, the second on one
  whose \<^verbatim>\<open>image\<close> is truthy, whatever \<^verbatim>\<open>img.get("url")\<close> returns.
\<close>

fun scan_attachments :: "json list \<Rightarrow> exn + json" where
  "scan_attachments [] = Inr JNull"
| "scan_attachments (att # atts) =
     (case py_contains ''url'' att of
        Inl e \<Rightarrow> Inl e
      | Inr True \<Rightarrow> py_getitem att ''url''
      | Inr False \<Rightarrow>
          (case py_get att ''image'' JNull of
             Inl e \<Rightarrow> Inl e
           | Inr img \<Rightarrow>
               if truthy img then py_get img ''url'' JNull else scan_attachments atts))"

fun parse_step :: "json \<Rightarrow> exn + Step" where
  "parse_step (JObj kvs) =
     (case py_iter (dict_get kvs ''attachments'' (JList [])) of
        Inl e \<Rightarrow> Inl e
      | Inr atts \<Rightarrow>
          (case scan_attachments atts of
             Inl e \<Rightarrow> Inl e
           | Inr image_url \<Rightarrow>
               Inr \<lparr> Step_description = dict_get kvs ''description'' (JStr ''''),
                     Step_id = dict_get kvs ''id'' (JInt 0),
                     Step_image_url = image_url \<rparr>))"
| "parse_step _ = Inl AttributeError"

text \<open>\<^verbatim>\<open>image_url = None; if img := data.get("image"): image_url = img.get("url")\<close>,
  shared by \<open>parse_user\<close>, \<open>parse_recipe\<close> and \<open>parse_comment\<close>.\<close>

definition nested_image_url :: "(string \<times> json) list \<Rightarrow> exn + json" where
  "nested_image_url kvs =
     (let img = dict_get kvs ''image'' JNull
      in if truthy img then py_get img ''url'' JNull else Inr JNull)"

fun parse_user :: "json \<Rightarrow> exn + User" where
  "parse_user (JObj kvs) =
     (case nested_image_url kvs of
        Inl e \<Rightarrow> Inl e
      | Inr image_url \<Rightarrow>
          Inr \<lparr> User_id = dict_get kvs ''id'' (JInt 0),
                User_name = dict_get kvs ''name'' (JStr ''''),
                User_profile_message =
                  py_or (dict_get kvs ''profile_message'' (JStr '''')) (JStr ''''),
                User_image_url = image_url,
                User_recipe_count = dict_get kvs ''recipe_count'' (JInt 0),
                User_follower_count = dict_get kvs ''follower_count'' (JInt 0),
                User_followee_count = dict_get kvs ''followee_count'' (JInt 0),
                User_cookpad_id = dict_get kvs ''cookpad_id'' (JStr ''''),
                User_href = dict_get kvs ''href'' (JStr '''') \<rparr>)"
| "parse_user _ = Inl AttributeError"

text \<open>\<^verbatim>\<open>user = None; if user_data := data.get("user"): user = parse_user(user_data)\<close>.\<close>

definition nested_user :: "(string \<times> json) list \<Rightarrow> exn + User option" where
  "nested_user kvs =
     (let user_data = dict_get kvs ''user'' JNull
      in if truthy user_data
         then (case parse_user user_data of Inl e \<Rightarrow> Inl e | Inr u \<Rightarrow> Inr (Some u))
         else Inr None)"

text \<open>\<^verbatim>\<open>[f(x) for x in data.get(key, [])]\<close>.\<close>

definition parse_each :: "(json \<Rightarrow> exn + 'a) \<Rightarrow> json \<Rightarrow> string \<Rightarrow> exn + 'a list" where
  "parse_each f data key =
     (case py_get data key (JList []) of
        Inl e \<Rightarrow> Inl e
      | Inr v \<Rightarrow> (case py_iter v of Inl e \<Rightarrow> Inl e | Inr xs \<Rightarrow> map_result f xs))"

fun parse_recipe :: "json \<Rightarrow> exn + Recipe" where
  "parse_recipe (JObj kvs) =
     (case nested_image_url kvs of
        Inl e \<Rightarrow> Inl e
      | Inr image_url \<Rightarrow>
     (case nested_user kvs of
        Inl e \<Rightarrow> Inl e
      | Inr user \<Rightarrow>
     (case parse_each parse_ingredient (JObj kvs) ''ingredients'' of
        Inl e \<Rightarrow> Inl e
      | Inr ingredients \<Rightarrow>
     (case parse_each parse_step (JObj kvs) ''steps'' of
        Inl e \<Rightarrow> Inl e
      | Inr steps \<Rightarrow>
          Inr \<lparr> Recipe_id = dict_get kvs ''id'' (JInt 0),
                Recipe_title = dict_get kvs ''title'' (JStr ''''),
                Recipe_story = py_or (dict_get kvs ''story'' (JStr '''')) (JStr ''''),
                Recipe_serving = py_or (dict_get kvs ''serving'' (JStr '''')) (JStr ''''),
                Recipe_cooking_time = dict_get kvs ''cooking_time'' JNull,
                Recipe_published_at = dict_get kvs ''published_at'' (JStr ''''),
                Recipe_hall_of_fame = dict_get kvs ''hall_of_fame'' (JBool False),
                Recipe_cooksnaps_count = dict_get kvs ''cooksnaps_count'' (JInt 0),
                Recipe_image_url = image_url,
                Recipe_ingredients = ingredients,
                Recipe_user = user,
                Recipe_advice = py_or (dict_get kvs ''advice'' (JStr '''')) (JStr ''''),
                Recipe_bookmarks_count = dict_get kvs ''bookmarks_count'' (JInt 0),
                Recipe_view_count = dict_get kvs ''view_count'' (JInt 0),
                Recipe_comments_count = dict_get kvs ''comments_count'' (JInt 0),
                Recipe_steps = steps,
                Recipe_href = dict_get kvs ''href'' (JStr ''''),
                Recipe_country = dict_get kvs ''country'' (JStr ''''),
                Recipe_language = dict_get kvs ''language'' (JStr ''''),
                Recipe_premium = dict_get kvs ''premium'' (JBool False) \<rparr>))))"
| "parse_recipe _ = Inl AttributeError"

fun parse_comment :: "json \<Rightarrow> exn + Comment" where
  "parse_comment (JObj kvs) =
     (case nested_user kvs of
        Inl e \<Rightarrow> Inl e
      | Inr user \<Rightarrow>
     (case nested_image_url kvs of
        Inl e \<Rightarrow> Inl e
      | Inr image_url \<Rightarrow>
          Inr \<lparr> Comment_id = dict_get kvs ''id'' (JInt 0),
                Comment_body = dict_get kvs ''body'' (JStr ''''),
                Comment_created_at = dict_get kvs ''created_at'' (JStr ''''),
                Comment_label = dict_get kvs ''label'' (JStr ''''),
                Comment_user = user,
                Comment_image_url = image_url,
                Comment_cursor = dict_get kvs ''cursor'' (JStr ''''),
                Comment_likes_count = dict_get kvs ''likes_count'' (JInt 0),
                Comment_replies_count = dict_get kvs ''replies_count'' (JInt 0) \<rparr>))"
| "parse_comment _ = Inl AttributeError"

text \<open>
  The comprehension of \<open>parse_search_response\<close>, with its filter: per item, first
  \<^verbatim>\<open>item.get("type") == "search_results/recipe"\<close>, then \<open>parse_recipe\<close> on the items
  that pass.
\<close>

fun search_items :: "json list \<Rightarrow> exn + Recipe list" where
  "search_items [] = Inr []"
| "search_items (item # items) =
     (case py_get item ''type'' JNull of
        Inl e \<Rightarrow> Inl e
      | Inr t \<Rightarrow>
          if t = JStr ''search_results/recipe''
          then (case parse_recipe item of
                  Inl e \<Rightarrow> Inl e
                | Inr r \<Rightarrow>
                    (case search_items items of Inl e \<Rightarrow> Inl e | Inr rs \<Rightarrow> Inr (r # rs)))
          else search_items items)"

text \<open>
  The envelope's \<^verbatim>\<open>extra\<close>, as \<open>parse_search_response\<close> and \<open>parse_users_response\<close>
  both read it: \<^verbatim>\<open>extra = data.get("extra", {})\<close>, then \<^verbatim>\<open>total_count\<close>, then
  \<^verbatim>\<open>next_page\<close> from \<^verbatim>\<open>extra.get("links", {}).get("next")\<close>. The result is the pair
  (total_count, next_page).
\<close>

definition parse_extra :: "(string \<times> json) list \<Rightarrow> exn + json \<times> json" where
  "parse_extra kvs =
     (let extra = dict_get kvs ''extra'' (JObj [])
      in case py_get extra ''total_count'' (JInt 0) of
           Inl e \<Rightarrow> Inl e
         | Inr total_count \<Rightarrow>
        (case py_get extra ''links'' (JObj []) of
           Inl e \<Rightarrow> Inl e
         | Inr links \<Rightarrow>
        (case py_get links ''next'' JNull of
           Inl e \<Rightarrow> Inl e
         | Inr next_link \<Rightarrow>
             if truthy next_link
             then (case py_get next_link ''page'' JNull of
                     Inl e \<Rightarrow> Inl e
                   | Inr page \<Rightarrow> Inr (total_count, page))
             else Inr (total_count, JNull))))"

fun parse_search_response :: "json \<Rightarrow> exn + SearchResponse" where
  "parse_search_response (JObj kvs) =
     (case py_iter (dict_get kvs ''result'' (JList [])) of
        Inl e \<Rightarrow> Inl e
      | Inr items \<Rightarrow>
     (case search_items items of
        Inl e \<Rightarrow> Inl e
      | Inr recipes \<Rightarrow>
     (case parse_extra kvs of
        Inl e \<Rightarrow> Inl e
      | Inr (total_count, next_page) \<Rightarrow>
          Inr \<lparr> SearchResponse_recipes = recipes,
                SearchResponse_total_count = total_count,
                SearchResponse_next_page = next_page,
                SearchResponse_raw = JObj kvs \<rparr>)))"
| "parse_search_response _ = Inl AttributeError"

fun parse_comments_response :: "json \<Rightarrow> exn + CommentsResponse" where
  "parse_comments_response (JObj kvs) =
     (case parse_each parse_comment (JObj kvs) ''result'' of
        Inl e \<Rightarrow> Inl e
      | Inr comments \<Rightarrow>
          Inr \<lparr> CommentsResponse_comments = comments,
                CommentsResponse_next_cursor =
                  (if comments \<noteq> [] \<and> truthy (Comment_cursor (last comments))
                   then Comment_cursor (last comments)
                   else JNull) \<rparr>)"
| "parse_comments_response _ = Inl AttributeError"

fun parse_users_response :: "json \<Rightarrow> exn + UsersResponse" where
  "parse_users_response (JObj kvs) =
     (case parse_each parse_user (JObj kvs) ''result'' of
        Inl e \<Rightarrow> Inl e
      | Inr users \<Rightarrow>
     (case parse_extra kvs of
        Inl e \<Rightarrow> Inl e
      | Inr (total_count, next_page) \<Rightarrow>
          Inr \<lparr> UsersResponse_users = users,
                UsersResponse_total_count = total_count,
                UsersResponse_next_page = next_page \<rparr>))"
| "parse_users_response _ = Inl AttributeError"

section \<open>The client of \<^verbatim>\<open>cookpad/client.py\<close>\<close>

subsection \<open>Constants (\<^verbatim>\<open>cookpad/constants.py\<close>)\<close>

definition BASE_URL :: string where
  "BASE_URL = ''https://global-api.cookpad.com/v32''"

definition API_HOST :: string where
  "API_HOST = ''global-api.cookpad.com''"

definition DEFAULT_TOKEN :: string where
  "DEFAULT_TOKEN = ''54ccbf3be26f7d3d3c1e068d53032e98e3ff992d49979f8e120b323910f0b942''"

definition DEFAULT_USER_AGENT :: string where
  "DEFAULT_USER_AGENT = ''com.cookpad/2026.7.0; iOS/26.2.1; iPhone17,3; ; ja_JP;''"

definition DEFAULT_COUNTRY :: string where
  "DEFAULT_COUNTRY = ''JP''"

definition DEFAULT_LANGUAGE :: string where
  "DEFAULT_LANGUAGE = ''ja''"

definition DEFAULT_TIMEZONE_ID :: string where
  "DEFAULT_TIMEZONE_ID = ''Asia/Tokyo''"

definition DEFAULT_TIMEZONE_OFFSET :: string where
  "DEFAULT_TIMEZONE_OFFSET = ''+09:00''"

definition DEFAULT_PROVIDER_ID :: string where
  "DEFAULT_PROVIDER_ID = ''8''"

definition SUPPORTED_SEARCH_TYPES :: string where
  "SUPPORTED_SEARCH_TYPES = join '',''
     [''search_results/recipe'',
      ''search_results/visual_guides'',
      ''search_results/spelling_suggestion'',
      ''search_results/title'',
      ''search_results/add_recipe_prompt'',
      ''search_results/premium_recipe_carousel'',
      ''search_results/premium_recipe_promotion'',
      ''search_results/library_recipes'',
      ''search_results/delicious_ways'',
      ''search_results/popular_promo_recipe'',
      ''search_results/premium_banner'']"

subsection \<open>The exception classes (\<^verbatim>\<open>cookpad/exceptions.py\<close>)\<close>

datatype exn_class =
    Exception_class
  | LookupError_class
  | ValueError_class
  | TypeError_class
  | AttributeError_class
  | KeyError_class
  | JSONDecodeError_class
  | RuntimeError_class
  | CookpadError_class
  | AuthenticationError_class
  | NotFoundError_class
  | RateLimitError_class
  | APIError_class

fun class_of :: "exn \<Rightarrow> exn_class" where
  "class_of TypeError = TypeError_class"
| "class_of AttributeError = AttributeError_class"
| "class_of KeyError = KeyError_class"
| "class_of JSONDecodeError = JSONDecodeError_class"
| "class_of RuntimeError = RuntimeError_class"
| "class_of (AuthenticationError m) = AuthenticationError_class"
| "class_of (NotFoundError m) = NotFoundError_class"
| "class_of (RateLimitError m) = RateLimitError_class"
| "class_of (APIError m c) = APIError_class"

text \<open>The class named in each \<^verbatim>\<open>class C(B)\<close> statement; the built-in classes have the
  bases Python gives them.\<close>

fun base_class :: "exn_class \<Rightarrow> exn_class option" where
  "base_class Exception_class = None"
| "base_class KeyError_class = Some LookupError_class"
| "base_class JSONDecodeError_class = Some ValueError_class"
| "base_class AuthenticationError_class = Some CookpadError_class"
| "base_class NotFoundError_class = Some CookpadError_class"
| "base_class RateLimitError_class = Some CookpadError_class"
| "base_class APIError_class = Some CookpadError_class"
| "base_class _ = Some Exception_class"

text \<open>\<^verbatim>\<open>except C\<close> catches an exception whose class is \<open>C\<close> or has \<open>C\<close> among its
  bases; the hierarchy is three classes deep.\<close>

definition superclasses :: "exn_class \<Rightarrow> exn_class list" where
  "superclasses c =
     c # (case base_class c of
            None \<Rightarrow> []
          | Some b \<Rightarrow>
              b # (case base_class b of
                     None \<Rightarrow> []
                   | Some b' \<Rightarrow> b' # (case base_class b' of None \<Rightarrow> [] | Some b'' \<Rightarrow> [b''])))"

definition caught_by :: "exn \<Rightarrow> exn_class \<Rightarrow> bool" where
  "caught_by e c = (c \<in> set (superclasses (class_of e)))"

subsection \<open>The client and its transport\<close>

text \<open>
  The instance: the seven configuration attributes and \<^verbatim>\<open>_client\<close>, which is
  \<^verbatim>\<open>None\<close> or an \<^verbatim>\<open>httpx.AsyncClient\<close>. The transport objects live in the world: each
  \<^verbatim>\<open>httpx.AsyncClient()\<close> creates a new one, named by a number, and \<^verbatim>\<open>aclose()\<close> puts
  it among the closed ones. The world also records the requests sent so far and how many
  UUIDs were drawn.
\<close>

record Cookpad =
  Cookpad_token :: string
  Cookpad_country :: string
  Cookpad_language :: string
  Cookpad_timezone_id :: string
  Cookpad_timezone_offset :: string
  Cookpad_user_agent :: string
  Cookpad_provider_id :: string
  Cookpad_client :: "nat option"

record http_request =
  request_url :: string
  request_headers :: "(string \<times> string) list"
  request_params :: "(string \<times> json) list option"

text \<open>A response: \<^verbatim>\<open>status_code\<close>, \<^verbatim>\<open>text\<close>, and what \<^verbatim>\<open>json()\<close> returns, \<open>None\<close>
  when the body is not JSON and \<^verbatim>\<open>json()\<close> raises.\<close>

record http_response =
  status_code :: int
  response_text :: string
  json_body :: "json option"

record world =
  world_created :: nat
  world_closed :: "nat set"
  world_sent :: "http_request list"
  world_uuids :: nat

text \<open>
  What the client does not decide: the answer of the server to a request (it may depend
  on the requests sent before), the UUIDs that \<^verbatim>\<open>uuid.uuid4()\<close> draws, and the library
  function \<^verbatim>\<open>json.dumps\<close>. Failures of the network are not modelled: the transport
  answers every request.
\<close>

record env =
  transport :: "http_request list \<Rightarrow> http_request \<Rightarrow> http_response"
  uuid4 :: "nat \<Rightarrow> string"
  json_dumps :: "json \<Rightarrow> string"

type_synonym state = "Cookpad \<times> world"

definition upper_char :: "char \<Rightarrow> char" where
  "upper_char c =
     (case map_of (zip ''abcdefghijklmnopqrstuvwxyz'' ''ABCDEFGHIJKLMNOPQRSTUVWXYZ'') c of
        Some u \<Rightarrow> u
      | None \<Rightarrow> c)"

definition upper :: "string \<Rightarrow> string" where
  "upper s = map upper_char s"

text \<open>\<^verbatim>\<open>__init__\<close>, and the instance that the defaults give.\<close>

definition init ::
  "string \<Rightarrow> string \<Rightarrow> string \<Rightarrow> string \<Rightarrow> string \<Rightarrow> string \<Rightarrow> string \<Rightarrow> Cookpad" where
  "init token country language timezone_id timezone_offset user_agent provider_id =
     \<lparr> Cookpad_token = token,
       Cookpad_country = country,
       Cookpad_language = language,
       Cookpad_timezone_id = timezone_id,
       Cookpad_timezone_offset = timezone_offset,
       Cookpad_user_agent = user_agent,
       Cookpad_provider_id = provider_id,
       Cookpad_client = None \<rparr>"

definition init_default :: Cookpad where
  "init_default =
     init DEFAULT_TOKEN DEFAULT_COUNTRY DEFAULT_LANGUAGE DEFAULT_TIMEZONE_ID
       DEFAULT_TIMEZONE_OFFSET DEFAULT_USER_AGENT DEFAULT_PROVIDER_ID"

text \<open>\<^verbatim>\<open>httpx.AsyncClient()\<close>: the new transport and the world that holds it.\<close>

definition AsyncClient :: "world \<Rightarrow> nat \<times> world" where
  "AsyncClient w = (world_created w, w\<lparr> world_created := Suc (world_created w) \<rparr>)"

text \<open>
  \<^verbatim>\<open>__aenter__\<close> and \<^verbatim>\<open>__aexit__\<close>. A name cannot start with an underscore here:
  \<^verbatim>\<open>_headers\<close> and \<^verbatim>\<open>_request\<close> are \<open>headers\<close> and \<open>request\<close> below. The
  coroutines are modelled as run one after the other: an operation is a function from the
  state before it to its result and the state after it.
\<close>

definition aenter :: "state \<Rightarrow> state" where
  "aenter s =
     (case s of (self, w) \<Rightarrow>
        (case AsyncClient w of (h, w') \<Rightarrow> (self\<lparr> Cookpad_client := Some h \<rparr>, w')))"

definition aexit :: "state \<Rightarrow> state" where
  "aexit s =
     (case s of (self, w) \<Rightarrow>
        (case Cookpad_client self of
           Some h \<Rightarrow>
             (self\<lparr> Cookpad_client := None \<rparr>, w\<lparr> world_closed := insert h (world_closed w) \<rparr>)
         | None \<Rightarrow> (self, w)))"

definition headers :: "Cookpad \<Rightarrow> string \<Rightarrow> (string \<times> string) list" where
  "headers self guid =
     [(''Host'', API_HOST),
      (''Authorization'', ''Bearer '' @ Cookpad_token self),
      (''X-Cookpad-Country-Selected'', Cookpad_country self),
      (''X-Cookpad-Timezone-Id'', Cookpad_timezone_id self),
      (''X-Cookpad-Provider-Id'', Cookpad_provider_id self),
      (''X-Cookpad-Timezone-Offset'', Cookpad_timezone_offset self),
      (''X-Cookpad-Guid'', upper guid),
      (''Accept-Encoding'', ''gzip''),
      (''Accept-Language'', Cookpad_language self),
      (''Accept'', ''*/*''),
      (''User-Agent'', Cookpad_user_agent self)]"

text \<open>
  \<^verbatim>\<open>_request\<close>. A transport that was closed refuses to send (httpx raises
  RuntimeError). The status is looked at before \<^verbatim>\<open>resp.json()\<close> is called.
\<close>

definition request ::
  "env \<Rightarrow> string \<Rightarrow> (string \<times> json) list option \<Rightarrow> state \<Rightarrow> (exn + json) \<times> state" where
  "request e path params s =
     (case s of (self0, w0) \<Rightarrow>
        (case (case Cookpad_client self0 of
                 None \<Rightarrow> (case AsyncClient w0 of (h, w') \<Rightarrow> (h, self0\<lparr> Cookpad_client := Some h \<rparr>, w'))
               | Some h \<Rightarrow> (h, self0, w0)) of
           (h, self, w1) \<Rightarrow>
             let req = \<lparr> request_url = BASE_URL @ path,
                         request_headers = headers self (uuid4 e (world_uuids w1)),
                         request_params = params \<rparr>;
                 w2 = w1\<lparr> world_uuids := Suc (world_uuids w1) \<rparr>
             in if h \<in> world_closed w2 then (Inl RuntimeError, (self, w2))
                else
                  let resp = transport e (world_sent w2) req;
                      w3 = w2\<lparr> world_sent := world_sent w2 @ [req] \<rparr>
                  in if status_code resp = 401
                     then (Inl (AuthenticationError ''Authentication failed''), (self, w3))
                     else if status_code resp = 404
                     then (Inl (NotFoundError (''Not found: '' @ path)), (self, w3))
                     else if status_code resp = 429
                     then (Inl (RateLimitError ''Rate limit exceeded''), (self, w3))
                     else if status_code resp \<ge> 400
                     then (Inl (APIError
                                  (''API error ('' @ show_int (status_code resp) @ ''): '' @ response_text resp)
                                  (status_code resp)),
                           (self, w3))
                     else (case json_body resp of
                             None \<Rightarrow> (Inl JSONDecodeError, (self, w3))
                           | Some data \<Rightarrow> (Inr data, (self, w3)))))"

text \<open>\<^verbatim>\<open>data = await self._request(...)\<close> followed by the rest of an operation: an
  exception of the request leaves the operation at once.\<close>

definition after_request ::
  "(exn + json) \<times> state \<Rightarrow> (json \<Rightarrow> exn + 'a) \<Rightarrow> (exn + 'a) \<times> state" where
  "after_request r f =
     (case r of (Inl e, s) \<Rightarrow> (Inl e, s) | (Inr data, s) \<Rightarrow> (f data, s))"

subsection \<open>The operations\<close>

record search_args =
  query :: string
  page :: int
  per_page :: int
  order :: string
  must_have_cooksnaps :: bool
  minimum_cooksnaps :: int
  must_have_photo_in_steps :: bool
  included_ingredients :: string
  excluded_ingredients :: string

text \<open>The defaults of the keyword arguments of \<open>search_recipes\<close>.\<close>

definition search_defaults :: "string \<Rightarrow> search_args" where
  "search_defaults q =
     \<lparr> query = q, page = 1, per_page = 30, order = ''recent'',
       must_have_cooksnaps = False, minimum_cooksnaps = 0,
       must_have_photo_in_steps = False,
       included_ingredients = '''', excluded_ingredients = '''' \<rparr>"

text \<open>The \<^verbatim>\<open>params\<close> dict that \<open>search_recipes\<close> builds: the literal, then the two
  conditional assignments. \<^verbatim>\<open>str(b).lower()\<close> is \<open>lower (py_repr q (JBool b))\<close>, for
  any \<open>q\<close>.\<close>

definition search_params :: "search_args \<Rightarrow> (string \<times> json) list" where
  "search_params a =
     (let params =
            [(''query'', JStr (query a)),
             (''page'', JInt (page a)),
             (''per_page'', JInt (per_page a)),
             (''order'', JStr (order a)),
             (''must_have_cooksnaps'', JStr (lower (py_repr id (JBool (must_have_cooksnaps a))))),
             (''minimum_number_of_cooksnaps'', JInt (minimum_cooksnaps a)),
             (''must_have_photo_in_steps'',
                JStr (lower (py_repr id (JBool (must_have_photo_in_steps a))))),
             (''from_delicious_ways'', JStr ''false''),
             (''search_source'', JStr ''recipe.search.typed_query''),
             (''supported_types'', JStr SUPPORTED_SEARCH_TYPES)];
          params =
            (if included_ingredients a \<noteq> []
             then AList.update ''included_ingredients'' (JStr (included_ingredients a)) params
             else params);
          params =
            (if excluded_ingredients a \<noteq> []
             then AList.update ''excluded_ingredients'' (JStr (excluded_ingredients a)) params
             else params)
      in params)"

definition search_recipes :: "env \<Rightarrow> search_args \<Rightarrow> state \<Rightarrow> (exn + SearchResponse) \<times> state" where
  "search_recipes e a s =
     after_request (request e ''/search_results'' (Some (search_params a)) s)
       parse_search_response"

definition get_recipe :: "env \<Rightarrow> int \<Rightarrow> state \<Rightarrow> (exn + Recipe) \<times> state" where
  "get_recipe e recipe_id s =
     after_request (request e (''/recipes/'' @ show_int recipe_id) None s)
       (\<lambda>data. case py_getitem data ''result'' of Inl x \<Rightarrow> Inl x | Inr r \<Rightarrow> parse_recipe r)"

definition get_similar_recipes ::
  "env \<Rightarrow> int \<Rightarrow> int \<Rightarrow> int \<Rightarrow> state \<Rightarrow> (exn + Recipe list) \<times> state" where
  "get_similar_recipes e recipe_id pg per s =
     after_request
       (request e (''/recipes/'' @ show_int recipe_id @ ''/similar_recipes'')
          (Some [(''page'', JInt pg), (''per_page'', JInt per)]) s)
       (\<lambda>data. parse_each parse_recipe data ''result'')"

definition get_comments ::
  "env \<Rightarrow> int \<Rightarrow> int \<Rightarrow> string \<Rightarrow> string \<Rightarrow> state \<Rightarrow> (exn + CommentsResponse) \<times> state" where
  "get_comments e recipe_id limit after label s =
     after_request
       (request e (''/recipes/'' @ show_int recipe_id @ ''/comments'')
          (Some [(''limit'', JInt limit), (''after'', JStr after), (''label'', JStr label)]) s)
       parse_comments_response"

definition search_users ::
  "env \<Rightarrow> string \<Rightarrow> int \<Rightarrow> int \<Rightarrow> state \<Rightarrow> (exn + UsersResponse) \<times> state" where
  "search_users e q pg per s =
     after_request
       (request e ''/users''
          (Some [(''query'', JStr q), (''page'', JInt pg), (''per_page'', JInt per)]) s)
       parse_users_response"

definition search_keywords :: "env \<Rightarrow> string \<Rightarrow> state \<Rightarrow> (exn + json) \<times> state" where
  "search_keywords e q s =
     after_request (request e ''/search_keywords'' (Some [(''query'', JStr q)]) s)
       (\<lambda>data. py_get data ''result'' (JObj []))"

text \<open>\<^verbatim>\<open>local_history or []\<close>: \<^verbatim>\<open>None\<close> and the empty list both give \<^verbatim>\<open>[]\<close>.\<close>

definition get_search_history ::
  "env \<Rightarrow> string list option \<Rightarrow> state \<Rightarrow> (exn + json) \<times> state" where
  "get_search_history e local_history s =
     (let history =
            json_dumps e (JList (map JStr (case local_history of None \<Rightarrow> [] | Some xs \<Rightarrow> xs)))
      in after_request
           (request e ''/search_history'' (Some [(''local_search_history'', JStr history)]) s)
           Inr)"

section \<open>Notions used to state the properties\<close>

subsection \<open>Step image resolution\<close>

text \<open>
  An attachment the scan passes over: a dict with no \<^verbatim>\<open>url\<close> key whose \<^verbatim>\<open>image\<close> is
  missing or falsy. Every other attachment ends the scan.
\<close>

fun skipped :: "json \<Rightarrow> bool" where
  "skipped (JObj kvs) = (map_of kvs ''url'' = None \<and> \<not> truthy (dict_get kvs ''image'' JNull))"
| "skipped _ = False"

text \<open>What an attachment that ends the scan contributes: its \<^verbatim>\<open>url\<close> when it has the
  key, otherwise the \<^verbatim>\<open>url\<close> of its \<^verbatim>\<open>image\<close> (none when the image has none).\<close>

definition attachment_url :: "json \<Rightarrow> exn + json" where
  "attachment_url att =
     (case py_contains ''url'' att of
        Inl e \<Rightarrow> Inl e
      | Inr True \<Rightarrow> py_getitem att ''url''
      | Inr False \<Rightarrow>
          (case py_get att ''image'' JNull of
             Inl e \<Rightarrow> Inl e
           | Inr img \<Rightarrow> py_get img ''url'' JNull))"

definition first_match :: "json list \<Rightarrow> exn + json" where
  "first_match atts =
     (case dropWhile skipped atts of [] \<Rightarrow> Inr JNull | att # _ \<Rightarrow> attachment_url att)"

definition step_with :: "(string \<times> json) list \<Rightarrow> json \<Rightarrow> Step" where
  "step_with kvs u =
     \<lparr> Step_description = dict_get kvs ''description'' (JStr ''''),
       Step_id = dict_get kvs ''id'' (JInt 0),
       Step_image_url = u \<rparr>"

subsection \<open>Comment cursors\<close>

text \<open>A comment carries a cursor when its \<open>cursor\<close> is truthy; a comment decoded from
  an item with no \<^verbatim>\<open>cursor\<close> key has the empty string there, and carries none.\<close>

definition carries_cursor :: "Comment \<Rightarrow> bool" where
  "carries_cursor c = truthy (Comment_cursor c)"

text \<open>The cursor of the last comment of a list; none when the list is empty or its last
  comment carries no cursor.\<close>

definition last_cursor :: "Comment list \<Rightarrow> json" where
  "last_cursor cs =
     (if cs = [] \<or> \<not> carries_cursor (last cs) then JNull else Comment_cursor (last cs))"

text \<open>The two-item response of \<^verbatim>\<open>test_parse_comments_response\<close> and the comments it
  decodes to.\<close>

definition two_comments :: "(string \<times> json) list" where
  "two_comments = [(''result'', JList
       [JObj [(''id'', JInt 1), (''body'', JStr ''Nice''), (''cursor'', JStr ''cur1'')],
        JObj [(''id'', JInt 2), (''body'', JStr ''Great''), (''cursor'', JStr ''cur2'')]])]"

definition comment_of :: "int \<Rightarrow> string \<Rightarrow> string \<Rightarrow> Comment" where
  "comment_of i b c =
     \<lparr> Comment_id = JInt i, Comment_body = JStr b, Comment_created_at = JStr '''',
       Comment_label = JStr '''', Comment_user = None, Comment_image_url = JNull,
       Comment_cursor = JStr c, Comment_likes_count = JInt 0, Comment_replies_count = JInt 0 \<rparr>"

subsection \<open>Paths into the envelope, and the kinds of search items\<close>

text \<open>The value at a path of keys, when every step of the path is a key of a dict.\<close>

fun lookup_path :: "string list \<Rightarrow> json \<Rightarrow> json option" where
  "lookup_path [] v = Some v"
| "lookup_path (k # ks) (JObj kvs) =
     (case map_of kvs k of None \<Rightarrow> None | Some v \<Rightarrow> lookup_path ks v)"
| "lookup_path (k # ks) _ = None"

text \<open>A link of the path is absent: following the path through dicts, a key is missing.\<close>

fun path_absent :: "string list \<Rightarrow> json \<Rightarrow> bool" where
  "path_absent [] v = False"
| "path_absent (k # ks) (JObj kvs) =
     (case map_of kvs k of None \<Rightarrow> True | Some v \<Rightarrow> path_absent ks v)"
| "path_absent (k # ks) _ = False"

definition next_page_path :: "string list" where
  "next_page_path = [''extra'', ''links'', ''next'', ''page'']"

fun is_obj :: "json \<Rightarrow> bool" where
  "is_obj (JObj kvs) = True"
| "is_obj _ = False"

text \<open>An item tagged as a recipe card.\<close>

fun is_recipe_card :: "json \<Rightarrow> bool" where
  "is_recipe_card (JObj kvs) = (map_of kvs ''type'' = Some (JStr ''search_results/recipe''))"
| "is_recipe_card _ = False"

text \<open>The four-item response of \<^verbatim>\<open>test_parse_search_response\<close> (the separator's title
  in ASCII), and the recipe that a summary card with an id and a title decodes to.\<close>

definition search_example_items :: "json list" where
  "search_example_items =
     [JObj [(''type'', JStr ''search_results/premium_banner''), (''result'', JList [])],
      JObj [(''type'', JStr ''search_results/title''), (''title'', JStr ''sep'')],
      JObj [(''type'', JStr ''search_results/recipe''), (''id'', JInt 1),
            (''title'', JStr ''Recipe 1'')],
      JObj [(''type'', JStr ''search_results/recipe''), (''id'', JInt 2),
            (''title'', JStr ''Recipe 2'')]]"

definition search_example :: "(string \<times> json) list" where
  "search_example =
     [(''result'', JList search_example_items),
      (''extra'', JObj [(''total_count'', JInt 100),
                        (''links'', JObj [(''prev'', JNull),
                                          (''next'', JObj [(''href'', JStr ''...''),
                                                           (''page'', JInt 2)])])])]"

definition recipe_of :: "int \<Rightarrow> string \<Rightarrow> Recipe" where
  "recipe_of i t =
     \<lparr> Recipe_id = JInt i, Recipe_title = JStr t, Recipe_story = JStr '''',
       Recipe_serving = JStr '''', Recipe_cooking_time = JNull,
       Recipe_published_at = JStr '''', Recipe_hall_of_fame = JBool False,
       Recipe_cooksnaps_count = JInt 0, Recipe_image_url = JNull,
       Recipe_ingredients = [], Recipe_user = None, Recipe_advice = JStr '''',
       Recipe_bookmarks_count = JInt 0, Recipe_view_count = JInt 0,
       Recipe_comments_count = JInt 0, Recipe_steps = [], Recipe_href = JStr '''',
       Recipe_country = JStr '''', Recipe_language = JStr '''',
       Recipe_premium = JBool False \<rparr>"

subsection \<open>String fields: a missing key and an explicit null\<close>

















subsection \<open>Inputs of the shape a decoder traverses\<close>
















subsection \<open>Calls of the client, and the request a call sends\<close>

text \<open>
  The seven operations as one type of calls, with the results they return, so that a
  property can speak of every operation and of sequences of them.
\<close>

datatype call =
    SearchRecipes search_args
  | GetRecipe int
  | GetSimilarRecipes int int int
  | GetComments int int string string
  | SearchUsers string int int
  | SearchKeywords string
  | GetSearchHistory "string list option"

datatype outcome =
    Search_outcome SearchResponse
  | Recipe_outcome Recipe
  | Recipes_outcome "Recipe list"
  | Comments_outcome CommentsResponse
  | Users_outcome UsersResponse
  | Raw_outcome json

definition returning :: "('a \<Rightarrow> outcome) \<Rightarrow> (exn + 'a) \<times> state \<Rightarrow> (exn + outcome) \<times> state" where
  "returning k r = (map_sum id k (fst r), snd r)"

fun perform :: "env \<Rightarrow> call \<Rightarrow> state \<Rightarrow> (exn + outcome) \<times> state" where
  "perform e (SearchRecipes a) s = returning Search_outcome (search_recipes e a s)"
| "perform e (GetRecipe i) s = returning Recipe_outcome (get_recipe e i s)"
| "perform e (GetSimilarRecipes i pg per) s =
     returning Recipes_outcome (get_similar_recipes e i pg per s)"
| "perform e (GetComments i limit after label) s =
     returning Comments_outcome (get_comments e i limit after label s)"
| "perform e (SearchUsers q pg per) s = returning Users_outcome (search_users e q pg per s)"
| "perform e (SearchKeywords q) s = returning Raw_outcome (search_keywords e q s)"
| "perform e (GetSearchHistory h) s = returning Raw_outcome (get_search_history e h s)"

text \<open>The path each operation requests.\<close>

fun call_path :: "call \<Rightarrow> string" where
  "call_path (SearchRecipes a) = ''/search_results''"
| "call_path (GetRecipe i) = ''/recipes/'' @ show_int i"
| "call_path (GetSimilarRecipes i pg per) = ''/recipes/'' @ show_int i @ ''/similar_recipes''"
| "call_path (GetComments i limit after label) = ''/recipes/'' @ show_int i @ ''/comments''"
| "call_path (SearchUsers q pg per) = ''/users''"
| "call_path (SearchKeywords q) = ''/search_keywords''"
| "call_path (GetSearchHistory h) = ''/search_history''"

text \<open>The request a call has sent (the last one of the log after the call), and the
  answer of the transport to it.\<close>

definition sent_by :: "env \<Rightarrow> call \<Rightarrow> state \<Rightarrow> http_request" where
  "sent_by e c s = last (world_sent (snd (snd (perform e c s))))"

definition answer :: "env \<Rightarrow> call \<Rightarrow> state \<Rightarrow> http_response" where
  "answer e c s = transport e (world_sent (snd s)) (sent_by e c s)"

text \<open>
  A state that a client can be in: every transport that was closed had been created, and
  the transport the instance holds, if any, was created and is not closed.
\<close>

definition consistent :: "state \<Rightarrow> bool" where
  "consistent s =
     ((\<forall>h \<in> world_closed (snd s). h < world_created (snd s))
      \<and> (case Cookpad_client (fst s) of
            None \<Rightarrow> True
          | Some h \<Rightarrow> h < world_created (snd s) \<and> h \<notin> world_closed (snd s)))"

text \<open>The state after \<^verbatim>\<open>Cookpad()\<close> in a world where nothing happened yet.\<close>

definition fresh_world :: world where
  "fresh_world = \<lparr> world_created = 0, world_closed = {}, world_sent = [], world_uuids = 0 \<rparr>"

definition start :: state where
  "start = (init_default, fresh_world)"

text \<open>The transport the instance holds once a request has acquired one, the state then,
  and the request that \<open>request\<close> builds.\<close>

definition acquired :: "state \<Rightarrow> state" where
  "acquired s =
     (case Cookpad_client (fst s) of
        None \<Rightarrow>
          ((fst s)\<lparr> Cookpad_client := Some (world_created (snd s)) \<rparr>,
           (snd s)\<lparr> world_created := Suc (world_created (snd s)) \<rparr>)
      | Some h \<Rightarrow> s)"

definition request_of :: "env \<Rightarrow> string \<Rightarrow> (string \<times> json) list option \<Rightarrow> state \<Rightarrow> http_request" where
  "request_of e path params s =
     \<lparr> request_url = BASE_URL @ path,
       request_headers = headers (fst (acquired s)) (uuid4 e (world_uuids (snd s))),
       request_params = params \<rparr>"

text \<open>The classification of a response by its status.\<close>

definition triage :: "string \<Rightarrow> http_response \<Rightarrow> exn + json" where
  "triage path resp =
     (if status_code resp = 401 then Inl (AuthenticationError ''Authentication failed'')
      else if status_code resp = 404 then Inl (NotFoundError (''Not found: '' @ path))
      else if status_code resp = 429 then Inl (RateLimitError ''Rate limit exceeded'')
      else if status_code resp \<ge> 400
      then Inl (APIError
                 (''API error ('' @ show_int (status_code resp) @ ''): '' @ response_text resp)
                 (status_code resp))
      else (case json_body resp of None \<Rightarrow> Inl JSONDecodeError | Some data \<Rightarrow> Inr data))"

text \<open>Sequences of operations on one instance: scope entry, scope exit, and calls.\<close>

datatype client_op = Enter | Exit | Call call

fun step :: "env \<Rightarrow> client_op \<Rightarrow> state \<Rightarrow> (exn + outcome) option \<times> state" where
  "step e Enter s = (None, aenter s)"
| "step e Exit s = (None, aexit s)"
| "step e (Call c) s = (Some (fst (perform e c s)), snd (perform e c s))"

fun run :: "env \<Rightarrow> client_op list \<Rightarrow> state \<Rightarrow> (exn + outcome) option list \<times> state" where
  "run e [] s = ([], s)"
| "run e (x # xs) s =
     (fst (step e x s) # fst (run e xs (snd (step e x s))), snd (run e xs (snd (step e x s))))"

text \<open>A transport that answers every request with the same response.\<close>

definition always :: "http_response \<Rightarrow> env" where
  "always resp =
     \<lparr> transport = (\<lambda>sent req. resp),
       uuid4 = (\<lambda>n. ''123e4567-e89b-42d3-a456-426614174000''),
       json_dumps = (\<lambda>v. ''[]'') \<rparr>"

text \<open>A successful response with an empty JSON object.\<close>

definition ok_response :: http_response where
  "ok_response = \<lparr> status_code = 200, response_text = ''{}'', json_body = Some (JObj []) \<rparr>"

section \<open>Evaluating the decoders\<close>

text \<open>The definitions that a decoder unfolds to on a concrete input.\<close>

lemmas decode_defs =
  dict_get_def py_or_def parse_each_def nested_user_def nested_image_url_def parse_extra_def

section \<open>Step image resolution (C3)\<close>

lemma scan_skipped: "skipped att \<Longrightarrow> scan_attachments (att # atts) = scan_attachments atts"
  by (cases att) simp_all

lemma scan_decides: "\<not> skipped att \<Longrightarrow> scan_attachments (att # atts) = attachment_url att"
  by (cases att) (auto simp: attachment_url_def split: sum.splits bool.splits)

lemma scan_first_match: "scan_attachments atts = first_match atts"
proof (induction atts)
  case Nil
  show ?case by (simp add: first_match_def)
next
  case (Cons att atts)
  show ?case
  proof (cases "skipped att")
    case True
    with Cons show ?thesis
      by (simp add: scan_skipped first_match_def del: scan_attachments.simps)
  next
    case False
    then show ?thesis
      by (simp add: scan_decides first_match_def del: scan_attachments.simps)
  qed
qed

text \<open>
  C3, as the spec states it, fails: a first attachment that has an \<^verbatim>\<open>image\<close> without a
  \<^verbatim>\<open>url\<close> lacks both a direct url and an image url, yet it ends the scan, and the url
  of the second attachment is not returned.
\<close>

theorem parse_step_image_without_url_counterexample:
  "parse_step (JObj [(''attachments'',
       JList [JObj [(''image'', JObj [(''id'', JInt 1)])], JObj [(''url'', JStr ''u'')]])])
   = Inr \<lparr> Step_description = JStr '''', Step_id = JInt 0, Step_image_url = JNull \<rparr>"
  by (simp add: dict_get_def)

text \<open>
  C3, amended: \<open>parse_step\<close> resolves \<open>image_url\<close> by a first-match-wins linear scan of
  the attachments. Attachments with neither a \<^verbatim>\<open>url\<close> key nor a truthy \<^verbatim>\<open>image\<close> are
  passed over; the first other attachment decides the result and ends the scan: its
  \<^verbatim>\<open>url\<close> when it has the key, otherwise the \<^verbatim>\<open>url\<close> of its image, which is none when
  the image has none. When every attachment is passed over (or the list is empty) the
  result is none. For a two-attachment list whose first attachment has neither a
  \<^verbatim>\<open>url\<close> key nor a truthy \<^verbatim>\<open>image\<close> and whose second has a \<^verbatim>\<open>url\<close>, the result is the
  url of the second.
\<close>

theorem parse_step_first_match:
  assumes "dict_get kvs ''attachments'' (JList []) = JList atts"
  shows "parse_step (JObj kvs) = map_sum id (step_with kvs) (first_match atts)
       \<and> ((\<forall>att \<in> set atts. skipped att) \<longrightarrow> parse_step (JObj kvs) = Inr (step_with kvs JNull))
       \<and> (\<forall>a1 a2 u. atts = [a1, a2] \<and> skipped a1 \<and> py_getitem a2 ''url'' = Inr u \<longrightarrow>
             parse_step (JObj kvs) = Inr (step_with kvs u))"
proof -
  have eq: "parse_step (JObj kvs) = map_sum id (step_with kvs) (first_match atts)"
    using assms by (simp add: scan_first_match step_with_def split: sum.splits)
  have none: "parse_step (JObj kvs) = Inr (step_with kvs JNull)"
    if "\<forall>att \<in> set atts. skipped att"
  proof -
    from that have dw: "dropWhile skipped atts = []" by simp
    show ?thesis unfolding eq first_match_def dw by simp
  qed
  have second: "parse_step (JObj kvs) = Inr (step_with kvs u)"
    if "atts = [a1, a2]" "skipped a1" "py_getitem a2 ''url'' = Inr u" for a1 a2 u
  proof -
    from that(3) obtain kvs2 where a2: "a2 = JObj kvs2" "map_of kvs2 ''url'' = Some u"
      by (cases a2) (auto split: option.splits)
    then have "attachment_url a2 = Inr u" by (simp add: attachment_url_def)
    with that a2 show ?thesis unfolding eq by (simp add: first_match_def)
  qed
  from eq none second show ?thesis by blast
qed

theorem parse_step_first_match_witness:
  "dict_get [(''attachments'', JList [JObj [], JObj [(''url'', JStr ''u'')]])]
      ''attachments'' (JList []) = JList [JObj [], JObj [(''url'', JStr ''u'')]]
   \<and> skipped (JObj [])
   \<and> py_getitem (JObj [(''url'', JStr ''u'')]) ''url'' = Inr (JStr ''u'')
   \<and> parse_step (JObj [(''attachments'', JList [JObj [], JObj [(''url'', JStr ''u'')]])])
       = Inr \<lparr> Step_description = JStr '''', Step_id = JInt 0, Step_image_url = JStr ''u'' \<rparr>"
proof -
  let ?atts = "[JObj [], JObj [(''url'', JStr ''u'')]]"
  let ?kvs = "[(''attachments'', JList ?atts)]"
  have h: "dict_get ?kvs ''attachments'' (JList []) = JList ?atts"
    by (simp add: dict_get_def)
  have s: "skipped (JObj [])" by (simp add: dict_get_def)
  have g: "py_getitem (JObj [(''url'', JStr ''u'')]) ''url'' = Inr (JStr ''u'')" by simp
  from parse_step_first_match [OF h] s g
  have "parse_step (JObj ?kvs) = Inr (step_with ?kvs (JStr ''u''))" by blast
  then have "parse_step (JObj ?kvs)
      = Inr \<lparr> Step_description = JStr '''', Step_id = JInt 0, Step_image_url = JStr ''u'' \<rparr>"
    by (simp add: step_with_def dict_get_def)
  with h s g show ?thesis by blast
qed

section \<open>Missing keys and explicit nulls in string fields (C1)\<close>











section \<open>The cursor of a comments response (C5)\<close>

lemma truthy_not_null: "truthy v \<Longrightarrow> v \<noteq> JNull"
  by (cases v) simp_all

lemma last_cursor_null: "last_cursor cs = JNull \<longleftrightarrow> cs = [] \<or> \<not> carries_cursor (last cs)"
  by (auto simp: last_cursor_def carries_cursor_def dest: truthy_not_null)

lemma comments_response_obj:
  "parse_comments_response (JObj kvs) =
     map_sum id
       (\<lambda>cs. \<lparr> CommentsResponse_comments = cs, CommentsResponse_next_cursor = last_cursor cs \<rparr>)
       (parse_each parse_comment (JObj kvs) ''result'')"
  by (auto simp: last_cursor_def carries_cursor_def split: sum.splits)

lemma comments_response_Inr:
  assumes "parse_comments_response data = Inr r"
  shows "CommentsResponse_next_cursor r = last_cursor (CommentsResponse_comments r)"
proof (cases data)
  case (JObj kvs)
  with assms show ?thesis
    unfolding JObj comments_response_obj
    by (cases "parse_each parse_comment (JObj kvs) ''result''") auto
qed (use assms in simp_all)

text \<open>
  C5: whenever \<open>parse_comments_response\<close> returns, \<open>next_cursor\<close> is the cursor of the
  last decoded comment, and it is none exactly when the list is empty or the last comment
  carries no cursor. The function returns whenever the items of \<^verbatim>\<open>result\<close> decode, with
  the decoded comments in order; an empty \<^verbatim>\<open>result\<close> list gives no comments and no
  cursor.
\<close>

theorem parse_comments_response_next_cursor:
  "(parse_comments_response data = Inr r \<longrightarrow>
      CommentsResponse_next_cursor r = last_cursor (CommentsResponse_comments r)
      \<and> (CommentsResponse_next_cursor r = JNull \<longleftrightarrow>
           CommentsResponse_comments r = []
           \<or> \<not> carries_cursor (last (CommentsResponse_comments r))))
   \<and> (dict_get kvs ''result'' (JList []) = JList items
        \<and> map_result parse_comment items = Inr cs \<longrightarrow>
        parse_comments_response (JObj kvs) =
          Inr \<lparr> CommentsResponse_comments = cs, CommentsResponse_next_cursor = last_cursor cs \<rparr>)
   \<and> (dict_get kvs ''result'' (JList []) = JList [] \<longrightarrow>
        parse_comments_response (JObj kvs) =
          Inr \<lparr> CommentsResponse_comments = [], CommentsResponse_next_cursor = JNull \<rparr>)"
proof (intro conjI impI)
  assume "parse_comments_response data = Inr r"
  then show c: "CommentsResponse_next_cursor r = last_cursor (CommentsResponse_comments r)"
    by (rule comments_response_Inr)
  show "CommentsResponse_next_cursor r = JNull \<longleftrightarrow>
          CommentsResponse_comments r = []
          \<or> \<not> carries_cursor (last (CommentsResponse_comments r))"
    unfolding c by (rule last_cursor_null)
next
  assume "dict_get kvs ''result'' (JList []) = JList items
    \<and> map_result parse_comment items = Inr cs"
  then show "parse_comments_response (JObj kvs) =
      Inr \<lparr> CommentsResponse_comments = cs, CommentsResponse_next_cursor = last_cursor cs \<rparr>"
    unfolding comments_response_obj by (simp add: parse_each_def)
next
  assume "dict_get kvs ''result'' (JList []) = JList []"
  then show "parse_comments_response (JObj kvs) =
      Inr \<lparr> CommentsResponse_comments = [], CommentsResponse_next_cursor = JNull \<rparr>"
    unfolding comments_response_obj by (simp add: parse_each_def last_cursor_def)
qed

theorem parse_comments_response_next_cursor_witness:
  "parse_comments_response (JObj two_comments) =
     Inr \<lparr> CommentsResponse_comments =
             [comment_of 1 ''Nice'' ''cur1'', comment_of 2 ''Great'' ''cur2''],
           CommentsResponse_next_cursor = JStr ''cur2'' \<rparr>
   \<and> carries_cursor (comment_of 2 ''Great'' ''cur2'')
   \<and> parse_comments_response (JObj [(''result'', JList [])]) =
     Inr \<lparr> CommentsResponse_comments = [], CommentsResponse_next_cursor = JNull \<rparr>"
proof -
  let ?items = "[JObj [(''id'', JInt 1), (''body'', JStr ''Nice''), (''cursor'', JStr ''cur1'')],
        JObj [(''id'', JInt 2), (''body'', JStr ''Great''), (''cursor'', JStr ''cur2'')]]"
  let ?cs = "[comment_of 1 ''Nice'' ''cur1'', comment_of 2 ''Great'' ''cur2'']"
  let ?r = "\<lparr> CommentsResponse_comments = ?cs, CommentsResponse_next_cursor = last_cursor ?cs \<rparr>"
  have h1: "dict_get two_comments ''result'' (JList []) = JList ?items"
    by (simp add: two_comments_def dict_get_def)
  have h2: "map_result parse_comment ?items = Inr ?cs"
    by (simp add: comment_of_def dict_get_def nested_user_def nested_image_url_def)
  have h3: "dict_get [(''result'', JList [])] ''result'' (JList []) = JList []"
    by (simp add: dict_get_def)
  have cc: "carries_cursor (comment_of 2 ''Great'' ''cur2'')"
    by (simp add: carries_cursor_def comment_of_def)
  have lc: "last_cursor ?cs = JStr ''cur2''"
    by (simp add: last_cursor_def carries_cursor_def comment_of_def)
  from parse_comments_response_next_cursor [of "JObj two_comments" ?r two_comments ?items ?cs]
    h1 h2
  have a: "parse_comments_response (JObj two_comments) = Inr ?r"
    by blast
  from parse_comments_response_next_cursor
    [of "JObj two_comments" ?r "[(''result'', JList [])]" "[]" "[]"] h3
  have b: "parse_comments_response (JObj [(''result'', JList [])]) =
     Inr \<lparr> CommentsResponse_comments = [], CommentsResponse_next_cursor = JNull \<rparr>"
    by blast
  from a b lc cc show ?thesis by simp
qed

section \<open>The recipe cards of a search response (C4)\<close>

lemma map_result_Inr: "map_result f xs = Inr ys \<longleftrightarrow> list_all2 (\<lambda>x y. f x = Inr y) xs ys"
proof (induction xs arbitrary: ys)
  case Nil
  show ?case by auto
next
  case (Cons x xs)
  show ?case
  proof (cases "map_result f xs")
    case (Inl e)
    with Cons [of "tl ys"] show ?thesis
      by (cases ys) (auto split: sum.splits)
  next
    case (Inr zs)
    with Cons [of zs] Cons [of "tl ys"] show ?thesis
      by (cases ys) (auto split: sum.splits)
  qed
qed

lemma search_items_filter:
  "\<forall>item \<in> set items. is_obj item \<Longrightarrow>
     search_items items = map_result parse_recipe (filter is_recipe_card items)"
proof (induction items)
  case Nil
  show ?case by simp
next
  case (Cons item items)
  then obtain kvs where i: "item = JObj kvs" by (cases item) simp_all
  from Cons have IH: "search_items items = map_result parse_recipe (filter is_recipe_card items)"
    by simp
  show ?case
    unfolding i search_items.simps IH
    by (simp add: dict_get_def split: option.splits del: parse_recipe.simps)
qed

text \<open>
  C4, as the spec states it, fails: the filter of the comprehension calls
  \<^verbatim>\<open>item.get("type")\<close> on every item, so an item that is not a dict is not dropped
  but raises AttributeError, alone or before a recipe card.
\<close>

theorem parse_search_response_non_object_item_counterexample:
  "parse_search_response (JObj [(''result'', JList [JStr ''a''])]) = Inl AttributeError
   \<and> parse_search_response
        (JObj [(''result'',
           JList [JNull,
                  JObj [(''type'', JStr ''search_results/recipe''), (''id'', JInt 1),
                        (''title'', JStr ''Recipe 1'')]])])
       = Inl AttributeError"
  by (simp add: dict_get_def)

text \<open>
  C4, amended: for every input whose \<^verbatim>\<open>result\<close> is missing or a list of JSON objects,
  the recipes of the response are, in order and one for one, the decodings of the items
  tagged \<^verbatim>\<open>search_results/recipe\<close>; the other items are dropped and cause no error
  (the response is returned whenever the recipe cards and the envelope decode); and
  \<open>raw\<close> is the input.
\<close>

theorem parse_search_response_recipe_cards:
  assumes "dict_get kvs ''result'' (JList []) = JList items"
    and "\<forall>item \<in> set items. is_obj item"
  shows "(\<forall>r. parse_search_response (JObj kvs) = Inr r \<longrightarrow>
            list_all2 (\<lambda>item rcp. parse_recipe item = Inr rcp)
              (filter is_recipe_card items) (SearchResponse_recipes r)
            \<and> SearchResponse_raw r = JObj kvs)
       \<and> (\<forall>rs tc np. map_result parse_recipe (filter is_recipe_card items) = Inr rs
             \<and> parse_extra kvs = Inr (tc, np) \<longrightarrow>
             parse_search_response (JObj kvs) =
               Inr \<lparr> SearchResponse_recipes = rs, SearchResponse_total_count = tc,
                     SearchResponse_next_page = np, SearchResponse_raw = JObj kvs \<rparr>)"
proof -
  have si: "search_items items = map_result parse_recipe (filter is_recipe_card items)"
    using assms(2) by (rule search_items_filter)
  show ?thesis
  proof (intro conjI allI impI)
    fix r assume r: "parse_search_response (JObj kvs) = Inr r"
    with assms(1) obtain rs where "search_items items = Inr rs" "SearchResponse_recipes r = rs"
      by (auto split: sum.splits)
    then show "list_all2 (\<lambda>item rcp. parse_recipe item = Inr rcp)
              (filter is_recipe_card items) (SearchResponse_recipes r)"
      unfolding si by (simp add: map_result_Inr)
    from r show "SearchResponse_raw r = JObj kvs"
      by (auto split: sum.splits)
  next
    fix rs tc np
    assume "map_result parse_recipe (filter is_recipe_card items) = Inr rs
             \<and> parse_extra kvs = Inr (tc, np)"
    with assms(1) si show "parse_search_response (JObj kvs) =
               Inr \<lparr> SearchResponse_recipes = rs, SearchResponse_total_count = tc,
                     SearchResponse_next_page = np, SearchResponse_raw = JObj kvs \<rparr>"
      by simp
  qed
qed

theorem parse_search_response_recipe_cards_witness:
  "dict_get search_example ''result'' (JList []) = JList search_example_items
   \<and> list_all is_obj search_example_items
   \<and> filter is_recipe_card search_example_items = drop 2 search_example_items
   \<and> parse_search_response (JObj search_example) =
       Inr \<lparr> SearchResponse_recipes = [recipe_of 1 ''Recipe 1'', recipe_of 2 ''Recipe 2''],
             SearchResponse_total_count = JInt 100,
             SearchResponse_next_page = JInt 2,
             SearchResponse_raw = JObj search_example \<rparr>"
proof -
  have h1: "dict_get search_example ''result'' (JList []) = JList search_example_items"
    by (simp add: search_example_def dict_get_def)
  have h2: "list_all is_obj search_example_items"
    by (simp add: search_example_items_def)
  then have h2': "\<forall>item \<in> set search_example_items. is_obj item"
    by (simp add: list_all_iff)
  have f: "filter is_recipe_card search_example_items = drop 2 search_example_items"
    by (simp add: search_example_items_def)
  have m: "map_result parse_recipe (filter is_recipe_card search_example_items)
      = Inr [recipe_of 1 ''Recipe 1'', recipe_of 2 ''Recipe 2'']"
    by (simp add: search_example_items_def recipe_of_def decode_defs)
  have x: "parse_extra search_example = Inr (JInt 100, JInt 2)"
    by (simp add: search_example_def parse_extra_def dict_get_def)
  from parse_search_response_recipe_cards [OF h1 h2'] m x
  have "parse_search_response (JObj search_example) =
       Inr \<lparr> SearchResponse_recipes = [recipe_of 1 ''Recipe 1'', recipe_of 2 ''Recipe 2''],
             SearchResponse_total_count = JInt 100,
             SearchResponse_next_page = JInt 2,
             SearchResponse_raw = JObj search_example \<rparr>"
    by blast
  with h1 h2 f show ?thesis by blast
qed

section \<open>The next page of a listing (C6)\<close>

lemma parse_extra_present:
  assumes "lookup_path next_page_path (JObj kvs) = Some v"
  shows "\<exists>tc. parse_extra kvs = Inr (tc, v)"
proof -
  from assms obtain ekvs where e: "map_of kvs ''extra'' = Some (JObj ekvs)"
    and l1: "lookup_path [''links'', ''next'', ''page''] (JObj ekvs) = Some v"
    by (auto simp: next_page_path_def split: option.splits elim: lookup_path.elims)
  from l1 obtain lkvs where l: "map_of ekvs ''links'' = Some (JObj lkvs)"
    and l2: "lookup_path [''next'', ''page''] (JObj lkvs) = Some v"
    by (auto split: option.splits elim: lookup_path.elims)
  from l2 obtain nkvs where n: "map_of lkvs ''next'' = Some (JObj nkvs)"
    and p: "map_of nkvs ''page'' = Some v"
    by (auto split: option.splits elim: lookup_path.elims)
  from p have "nkvs \<noteq> []" by auto
  with e l n p show ?thesis by (simp add: parse_extra_def dict_get_def)
qed

lemma parse_extra_absent:
  assumes "path_absent next_page_path (JObj kvs)"
  shows "\<exists>tc. parse_extra kvs = Inr (tc, JNull)"
proof (cases "map_of kvs ''extra''")
  case None
  then show ?thesis by (simp add: parse_extra_def dict_get_def)
next
  case (Some extra)
  with assms have a1: "path_absent [''links'', ''next'', ''page''] extra"
    by (simp add: next_page_path_def)
  then obtain ekvs where e: "extra = JObj ekvs" by (cases extra) simp_all
  show ?thesis
  proof (cases "map_of ekvs ''links''")
    case None
    with Some e show ?thesis by (simp add: parse_extra_def dict_get_def)
  next
    case (Some links)
    note sl = this
    with a1 e have a2: "path_absent [''next'', ''page''] links" by simp
    then obtain lkvs where l: "links = JObj lkvs" by (cases links) simp_all
    show ?thesis
    proof (cases "map_of lkvs ''next''")
      case None
      with \<open>map_of kvs ''extra'' = Some extra\<close> e sl l show ?thesis
        by (simp add: parse_extra_def dict_get_def)
    next
      case (Some nxt)
      with a2 l have a3: "path_absent [''page''] nxt" by simp
      then obtain nkvs where n: "nxt = JObj nkvs" by (cases nxt) simp_all
      with a3 have "map_of nkvs ''page'' = None" by (simp split: option.splits)
      with \<open>map_of kvs ''extra'' = Some extra\<close> e sl l Some n show ?thesis
        by (simp add: parse_extra_def dict_get_def)
    qed
  qed
qed

lemma search_response_next_page:
  "parse_search_response (JObj kvs) = Inr r \<Longrightarrow> parse_extra kvs = Inr (tc, v) \<Longrightarrow>
     SearchResponse_next_page r = v"
  by (auto split: sum.splits)

lemma users_response_next_page:
  "parse_users_response (JObj kvs) = Inr r \<Longrightarrow> parse_extra kvs = Inr (tc, v) \<Longrightarrow>
     UsersResponse_next_page r = v"
  by (auto split: sum.splits)

text \<open>
  C6: for \<open>parse_search_response\<close> and \<open>parse_users_response\<close>, when the path
  \<^verbatim>\<open>extra.links.next.page\<close> is present its value is \<open>next_page\<close>, and when a link of
  that path is absent \<open>next_page\<close> is none. Both functions return with that
  \<open>next_page\<close> whenever the items of \<^verbatim>\<open>result\<close> decode.
\<close>

theorem next_page_from_links:
  assumes "lookup_path next_page_path (JObj kvs) = Some v
         \<or> path_absent next_page_path (JObj kvs) \<and> v = JNull"
  shows "(\<forall>r. parse_search_response (JObj kvs) = Inr r \<longrightarrow> SearchResponse_next_page r = v)
       \<and> (\<forall>r. parse_users_response (JObj kvs) = Inr r \<longrightarrow> UsersResponse_next_page r = v)
       \<and> (\<forall>items rs. py_iter (dict_get kvs ''result'' (JList [])) = Inr items
             \<and> search_items items = Inr rs \<longrightarrow>
             (\<exists>r. parse_search_response (JObj kvs) = Inr r \<and> SearchResponse_next_page r = v))
       \<and> (\<forall>us. parse_each parse_user (JObj kvs) ''result'' = Inr us \<longrightarrow>
             (\<exists>r. parse_users_response (JObj kvs) = Inr r \<and> UsersResponse_next_page r = v))"
proof -
  from assms obtain tc where ex: "parse_extra kvs = Inr (tc, v)"
    using parse_extra_present parse_extra_absent by blast
  show ?thesis
  proof (intro conjI allI impI)
    fix r assume "parse_search_response (JObj kvs) = Inr r"
    then show "SearchResponse_next_page r = v" using ex by (rule search_response_next_page)
  next
    fix r assume "parse_users_response (JObj kvs) = Inr r"
    then show "UsersResponse_next_page r = v" using ex by (rule users_response_next_page)
  next
    fix items rs
    assume "py_iter (dict_get kvs ''result'' (JList [])) = Inr items \<and> search_items items = Inr rs"
    with ex show "\<exists>r. parse_search_response (JObj kvs) = Inr r \<and> SearchResponse_next_page r = v"
      by simp
  next
    fix us assume "parse_each parse_user (JObj kvs) ''result'' = Inr us"
    with ex show "\<exists>r. parse_users_response (JObj kvs) = Inr r \<and> UsersResponse_next_page r = v"
      by simp
  qed
qed

theorem next_page_from_links_witness:
  "lookup_path next_page_path (JObj search_example) = Some (JInt 2)
   \<and> map_sum id SearchResponse_next_page (parse_search_response (JObj search_example))
       = Inr (JInt 2)
   \<and> path_absent next_page_path (JObj [(''result'', JList [])])
   \<and> map_sum id UsersResponse_next_page (parse_users_response (JObj [(''result'', JList [])]))
       = Inr JNull"
proof -
  have p: "lookup_path next_page_path (JObj search_example) = Some (JInt 2)"
    by (simp add: next_page_path_def search_example_def)
  have i: "py_iter (dict_get search_example ''result'' (JList [])) = Inr search_example_items"
    by (simp add: search_example_def dict_get_def)
  have s: "search_items search_example_items = Inr [recipe_of 1 ''Recipe 1'', recipe_of 2 ''Recipe 2'']"
    by (simp add: search_example_items_def recipe_of_def decode_defs)
  from next_page_from_links [of search_example "JInt 2"] p i s
  obtain r where "parse_search_response (JObj search_example) = Inr r"
    and "SearchResponse_next_page r = JInt 2"
    by blast
  then have a: "map_sum id SearchResponse_next_page (parse_search_response (JObj search_example))
       = Inr (JInt 2)"
    by simp
  have q: "path_absent next_page_path (JObj [(''result'', JList [])])"
    by (simp add: next_page_path_def)
  have u: "parse_each parse_user (JObj [(''result'', JList [])]) ''result'' = Inr []"
    by (simp add: parse_each_def dict_get_def)
  from next_page_from_links [of "[(''result'', JList [])]" JNull] q u
  obtain r' where "parse_users_response (JObj [(''result'', JList [])]) = Inr r'"
    and "UsersResponse_next_page r' = JNull"
    by blast
  then have b: "map_sum id UsersResponse_next_page
      (parse_users_response (JObj [(''result'', JList [])])) = Inr JNull"
    by simp
  from p a q b show ?thesis by blast
qed

section \<open>When the decoders return (C2)\<close>






















section \<open>What a request does\<close>

lemma request_unfold:
  assumes "consistent s"
  shows "request e path params s =
     (triage path (transport e (world_sent (snd s)) (request_of e path params s)),
      (fst (acquired s),
       (snd (acquired s))
         \<lparr> world_uuids := Suc (world_uuids (snd s)),
           world_sent := world_sent (snd s) @ [request_of e path params s] \<rparr>))"
proof (cases s)
  case (Pair self w)
  show ?thesis
  proof (cases "Cookpad_client self")
    case None
    from assms Pair have "world_created w \<notin> world_closed w"
      by (auto simp: consistent_def)
    with Pair None show ?thesis
      by (simp add: request_def AsyncClient_def acquired_def request_of_def triage_def
            Let_def split: option.splits)
  next
    case (Some h)
    from assms Pair Some have "h \<notin> world_closed w"
      by (simp add: consistent_def)
    with Pair Some show ?thesis
      by (simp add: request_def acquired_def request_of_def triage_def Let_def
            split: option.splits)
  qed
qed

lemma after_request_simps:
  "fst (after_request r f) = (case fst r of Inl x \<Rightarrow> Inl x | Inr d \<Rightarrow> f d)"
  "snd (after_request r f) = snd r"
  by (cases r; cases "fst r"; simp add: after_request_def)+

lemma returning_after_request:
  "returning k (after_request r f) = after_request r (\<lambda>d. map_sum id k (f d))"
  by (cases r; cases "fst r"; simp add: after_request_def returning_def)

lemma perform_request:
  "\<exists>params f. perform e c s = after_request (request e (call_path c) params s) f"
proof (cases c)
  case (SearchRecipes a)
  show ?thesis unfolding SearchRecipes perform.simps call_path.simps search_recipes_def
      returning_after_request by blast
next
  case (GetRecipe i)
  show ?thesis unfolding GetRecipe perform.simps call_path.simps get_recipe_def
      returning_after_request by blast
next
  case (GetSimilarRecipes i pg per)
  show ?thesis unfolding GetSimilarRecipes perform.simps call_path.simps
      get_similar_recipes_def returning_after_request by blast
next
  case (GetComments i limit after label)
  show ?thesis unfolding GetComments perform.simps call_path.simps get_comments_def
      returning_after_request by blast
next
  case (SearchUsers q pg per)
  show ?thesis unfolding SearchUsers perform.simps call_path.simps search_users_def
      returning_after_request by blast
next
  case (SearchKeywords q)
  show ?thesis unfolding SearchKeywords perform.simps call_path.simps search_keywords_def
      returning_after_request by blast
next
  case (GetSearchHistory h)
  show ?thesis unfolding GetSearchHistory perform.simps call_path.simps
      get_search_history_def Let_def returning_after_request by blast
qed

text \<open>What every call does in a consistent state: it sends one request, to its path, and
  its result is the classification of the answer followed by the decoding.\<close>

lemma perform_unfold:
  assumes "consistent s"
  shows "\<exists>params f.
     sent_by e c s = request_of e (call_path c) params s
     \<and> fst (perform e c s) =
         (case triage (call_path c) (answer e c s) of Inl x \<Rightarrow> Inl x | Inr d \<Rightarrow> f d)
     \<and> snd (perform e c s) =
         (fst (acquired s),
          (snd (acquired s))
            \<lparr> world_uuids := Suc (world_uuids (snd s)),
              world_sent := world_sent (snd s) @ [sent_by e c s] \<rparr>)"
proof -
  obtain params f
    where p: "perform e c s = after_request (request e (call_path c) params s) f"
    using perform_request by blast
  have r: "request e (call_path c) params s =
     (triage (call_path c)
        (transport e (world_sent (snd s)) (request_of e (call_path c) params s)),
      (fst (acquired s),
       (snd (acquired s))
         \<lparr> world_uuids := Suc (world_uuids (snd s)),
           world_sent := world_sent (snd s) @ [request_of e (call_path c) params s] \<rparr>))"
    using assms by (rule request_unfold)
  have sb: "sent_by e c s = request_of e (call_path c) params s"
    unfolding sent_by_def p after_request_simps r by simp
  have a: "answer e c s =
      transport e (world_sent (snd s)) (request_of e (call_path c) params s)"
    unfolding answer_def sb ..
  have f: "fst (perform e c s) =
         (case triage (call_path c) (answer e c s) of Inl x \<Rightarrow> Inl x | Inr d \<Rightarrow> f d)"
    unfolding p after_request_simps r a by simp
  have s: "snd (perform e c s) =
         (fst (acquired s),
          (snd (acquired s))
            \<lparr> world_uuids := Suc (world_uuids (snd s)),
              world_sent := world_sent (snd s) @ [sent_by e c s] \<rparr>)"
    unfolding p after_request_simps r sb by simp
  from sb f s show ?thesis by blast
qed

lemma triage_errors:
  "(status_code resp = 401 \<longrightarrow>
      triage path resp = Inl (AuthenticationError ''Authentication failed''))
   \<and> (status_code resp = 404 \<longrightarrow> triage path resp = Inl (NotFoundError (''Not found: '' @ path)))
   \<and> (status_code resp = 429 \<longrightarrow> triage path resp = Inl (RateLimitError ''Rate limit exceeded''))
   \<and> (status_code resp \<ge> 400 \<and> status_code resp \<notin> {401, 404, 429} \<longrightarrow>
        triage path resp =
          Inl (APIError
                 (''API error ('' @ show_int (status_code resp) @ ''): '' @ response_text resp)
                 (status_code resp)))"
  by (simp add: triage_def)

lemma triage_success:
  "status_code resp < 400 \<Longrightarrow> json_body resp = Some data \<Longrightarrow> triage path resp = Inr data"
  by (auto simp: triage_def)

lemma op_result:
  assumes "consistent s"
    and "perform e c s = returning k (after_request (request e path params s) g)"
  shows "sent_by e c s = request_of e path params s"
    and "fst (after_request (request e path params s) g) =
      (case triage path (answer e c s) of Inl x \<Rightarrow> Inl x | Inr d \<Rightarrow> g d)"
proof -
  have r: "request e path params s =
     (triage path (transport e (world_sent (snd s)) (request_of e path params s)),
      (fst (acquired s),
       (snd (acquired s))
         \<lparr> world_uuids := Suc (world_uuids (snd s)),
           world_sent := world_sent (snd s) @ [request_of e path params s] \<rparr>))"
    using assms(1) by (rule request_unfold)
  show sb: "sent_by e c s = request_of e path params s"
    unfolding sent_by_def assms(2) returning_def after_request_simps r by simp
  show "fst (after_request (request e path params s) g) =
      (case triage path (answer e c s) of Inl x \<Rightarrow> Inl x | Inr d \<Rightarrow> g d)"
    unfolding answer_def sb after_request_simps r by simp
qed

section \<open>The classification of HTTP failures (C7)\<close>

lemma cookpad_error_classes:
  "distinct [class_of (AuthenticationError m1), class_of (NotFoundError m2),
             class_of (RateLimitError m3), class_of (APIError m4 n)]
   \<and> caught_by (AuthenticationError m1) CookpadError_class
   \<and> caught_by (NotFoundError m2) CookpadError_class
   \<and> caught_by (RateLimitError m3) CookpadError_class
   \<and> caught_by (APIError m4 n) CookpadError_class"
  by (simp add: caught_by_def superclasses_def)

lemma triage_failure:
  assumes "status_code resp \<ge> 400"
  shows "\<exists>x. triage path resp = Inl x \<and> caught_by x CookpadError_class
           \<and> class_of x \<noteq> JSONDecodeError_class"
  using assms by (simp add: triage_def caught_by_def superclasses_def)

text \<open>
  C7: for every operation of the client, in every state the client can be in, and for
  every answer of the transport to the request the operation sends: status 401 raises
  \<open>AuthenticationError\<close>, 404 raises \<open>NotFoundError\<close> with the requested path in its
  message, 429 raises \<open>RateLimitError\<close>, and any other status from 400 on raises
  \<open>APIError\<close> carrying the status code and, in its message, the status and the body text.
  The four classes are pairwise distinct and derive from \<open>CookpadError\<close>. With a status
  from 400 on the result is one of these whatever the body is, also when it is not JSON:
  the body is not decoded.
\<close>

theorem http_status_triage:
  assumes "consistent s"
  shows "request_url (sent_by e c s) = BASE_URL @ call_path c
     \<and> (status_code (answer e c s) = 401 \<longrightarrow>
          fst (perform e c s) = Inl (AuthenticationError ''Authentication failed''))
     \<and> (status_code (answer e c s) = 404 \<longrightarrow>
          fst (perform e c s) = Inl (NotFoundError (''Not found: '' @ call_path c)))
     \<and> (status_code (answer e c s) = 429 \<longrightarrow>
          fst (perform e c s) = Inl (RateLimitError ''Rate limit exceeded''))
     \<and> (status_code (answer e c s) \<ge> 400 \<and> status_code (answer e c s) \<notin> {401, 404, 429} \<longrightarrow>
          fst (perform e c s) =
            Inl (APIError
                   (''API error ('' @ show_int (status_code (answer e c s)) @ ''): ''
                      @ response_text (answer e c s))
                   (status_code (answer e c s))))
     \<and> (status_code (answer e c s) \<ge> 400 \<longrightarrow>
          (\<exists>x. fst (perform e c s) = Inl x \<and> caught_by x CookpadError_class
             \<and> class_of x \<noteq> JSONDecodeError_class))
     \<and> distinct [class_of (AuthenticationError m1), class_of (NotFoundError m2),
                 class_of (RateLimitError m3), class_of (APIError m4 n)]
     \<and> caught_by (AuthenticationError m1) CookpadError_class
     \<and> caught_by (NotFoundError m2) CookpadError_class
     \<and> caught_by (RateLimitError m3) CookpadError_class
     \<and> caught_by (APIError m4 n) CookpadError_class"
proof -
  from assms obtain params f
    where sb: "sent_by e c s = request_of e (call_path c) params s"
      and res: "fst (perform e c s) =
         (case triage (call_path c) (answer e c s) of Inl x \<Rightarrow> Inl x | Inr d \<Rightarrow> f d)"
    using perform_unfold by blast
  have url: "request_url (sent_by e c s) = BASE_URL @ call_path c"
    unfolding sb by (simp add: request_of_def)
  note t = triage_errors [of "answer e c s" "call_path c"]
  have a: "status_code (answer e c s) = 401 \<longrightarrow>
          fst (perform e c s) = Inl (AuthenticationError ''Authentication failed'')"
    using t by (simp add: res)
  have b: "status_code (answer e c s) = 404 \<longrightarrow>
          fst (perform e c s) = Inl (NotFoundError (''Not found: '' @ call_path c))"
    using t by (simp add: res)
  have c: "status_code (answer e c s) = 429 \<longrightarrow>
          fst (perform e c s) = Inl (RateLimitError ''Rate limit exceeded'')"
    using t by (simp add: res)
  have d: "status_code (answer e c s) \<ge> 400 \<and> status_code (answer e c s) \<notin> {401, 404, 429} \<longrightarrow>
          fst (perform e c s) =
            Inl (APIError
                   (''API error ('' @ show_int (status_code (answer e c s)) @ ''): ''
                      @ response_text (answer e c s))
                   (status_code (answer e c s)))"
    using t by (simp add: res)
  have f: "status_code (answer e c s) \<ge> 400 \<longrightarrow>
          (\<exists>x. fst (perform e c s) = Inl x \<and> caught_by x CookpadError_class
             \<and> class_of x \<noteq> JSONDecodeError_class)"
  proof
    assume "status_code (answer e c s) \<ge> 400"
    then obtain x where "triage (call_path c) (answer e c s) = Inl x"
      "caught_by x CookpadError_class" "class_of x \<noteq> JSONDecodeError_class"
      using triage_failure by blast
    then show "\<exists>x. fst (perform e c s) = Inl x \<and> caught_by x CookpadError_class
             \<and> class_of x \<noteq> JSONDecodeError_class"
      by (simp add: res)
  qed
  from url a b c d f cookpad_error_classes [of m1 m2 m3 m4 n] show ?thesis
    by blast
qed

theorem http_status_triage_witness:
  "consistent start
   \<and> status_code (answer (always \<lparr> status_code = 404, response_text = ''gone'', json_body = None \<rparr>)
        (GetRecipe 42) start) = 404
   \<and> fst (perform (always \<lparr> status_code = 404, response_text = ''gone'', json_body = None \<rparr>)
        (GetRecipe 42) start) = Inl (NotFoundError ''Not found: /recipes/42'')
   \<and> fst (perform (always \<lparr> status_code = 401, response_text = '''', json_body = None \<rparr>)
        (GetRecipe 42) start) = Inl (AuthenticationError ''Authentication failed'')
   \<and> fst (perform (always \<lparr> status_code = 429, response_text = '''', json_body = None \<rparr>)
        (GetRecipe 42) start) = Inl (RateLimitError ''Rate limit exceeded'')
   \<and> fst (perform (always \<lparr> status_code = 500, response_text = ''oops!'', json_body = None \<rparr>)
        (SearchUsers ''a'' 1 20) start) = Inl (APIError ''API error (500): oops!'' 500)"
proof -
  have cs: "consistent start"
    by (simp add: consistent_def start_def fresh_world_def init_default_def init_def)
  have st: "status_code (answer (always r) c start) = status_code r"
    "response_text (answer (always r) c start) = response_text r" for r c
    by (simp_all add: answer_def always_def)
  have p: "call_path (GetRecipe 42) = ''/recipes/42''"
    by (simp add: show_int_def digit_char_def)
  have n: "show_int 500 = ''500''"
    by (simp add: show_int_def digit_char_def)
  from http_status_triage [OF cs,
      of "always \<lparr> status_code = 404, response_text = ''gone'', json_body = None \<rparr>"
         "GetRecipe 42"]
  have a: "fst (perform (always \<lparr> status_code = 404, response_text = ''gone'', json_body = None \<rparr>)
        (GetRecipe 42) start) = Inl (NotFoundError ''Not found: /recipes/42'')"
    unfolding st p by simp
  from http_status_triage [OF cs,
      of "always \<lparr> status_code = 401, response_text = '''', json_body = None \<rparr>"
         "GetRecipe 42"]
  have b: "fst (perform (always \<lparr> status_code = 401, response_text = '''', json_body = None \<rparr>)
        (GetRecipe 42) start) = Inl (AuthenticationError ''Authentication failed'')"
    unfolding st by simp
  from http_status_triage [OF cs,
      of "always \<lparr> status_code = 429, response_text = '''', json_body = None \<rparr>"
         "GetRecipe 42"]
  have c: "fst (perform (always \<lparr> status_code = 429, response_text = '''', json_body = None \<rparr>)
        (GetRecipe 42) start) = Inl (RateLimitError ''Rate limit exceeded'')"
    unfolding st by simp
  from http_status_triage [OF cs,
      of "always \<lparr> status_code = 500, response_text = ''oops!'', json_body = None \<rparr>"
         "SearchUsers ''a'' 1 20"]
  have d: "fst (perform (always \<lparr> status_code = 500, response_text = ''oops!'', json_body = None \<rparr>)
        (SearchUsers ''a'' 1 20) start) = Inl (APIError ''API error (500): oops!'' 500)"
    by (simp add: st n del: perform.simps)
  from cs st(1) a b c d show ?thesis by simp
qed

section \<open>The query parameters of a recipe search (C8)\<close>

lemma key_in_dict: "k \<in> fst ` set kvs \<longleftrightarrow> map_of kvs k \<noteq> None"
  by (simp add: map_of_eq_None_iff)

lemma search_params_lookup:
  "map_of (search_params a) ''included_ingredients'' =
     (if included_ingredients a = [] then None else Some (JStr (included_ingredients a)))"
  "map_of (search_params a) ''excluded_ingredients'' =
     (if excluded_ingredients a = [] then None else Some (JStr (excluded_ingredients a)))"
  "map_of (search_params a) ''must_have_cooksnaps'' =
     Some (JStr (if must_have_cooksnaps a then ''true'' else ''false''))"
  "map_of (search_params a) ''must_have_photo_in_steps'' =
     Some (JStr (if must_have_photo_in_steps a then ''true'' else ''false''))"
  by (simp_all add: search_params_def Let_def update_conv' lower_def lower_char_def)

lemma search_recipes_sent:
  assumes "consistent s"
  shows "request_params (sent_by e (SearchRecipes a) s) = Some (search_params a)"
proof -
  have "perform e (SearchRecipes a) s =
      returning Search_outcome
        (after_request (request e ''/search_results'' (Some (search_params a)) s)
           parse_search_response)"
    by (simp add: search_recipes_def)
  from op_result(1) [OF assms this] show ?thesis
    by (simp add: request_of_def)
qed

text \<open>
  C8: in the parameters that \<open>search_recipes\<close> sends, \<^verbatim>\<open>included_ingredients\<close> and
  \<^verbatim>\<open>excluded_ingredients\<close> are keys if and only if the argument is not empty (and then
  carry the argument), and \<^verbatim>\<open>must_have_cooksnaps\<close> and \<^verbatim>\<open>must_have_photo_in_steps\<close>
  are the texts \<^verbatim>\<open>true\<close> or \<^verbatim>\<open>false\<close>. These are the parameters of the request sent.
\<close>

theorem search_recipes_parameters:
  "(''included_ingredients'' \<in> fst ` set (search_params a) \<longleftrightarrow> included_ingredients a \<noteq> [])
   \<and> (''excluded_ingredients'' \<in> fst ` set (search_params a) \<longleftrightarrow> excluded_ingredients a \<noteq> [])
   \<and> (included_ingredients a \<noteq> [] \<longrightarrow>
        map_of (search_params a) ''included_ingredients'' = Some (JStr (included_ingredients a)))
   \<and> (excluded_ingredients a \<noteq> [] \<longrightarrow>
        map_of (search_params a) ''excluded_ingredients'' = Some (JStr (excluded_ingredients a)))
   \<and> map_of (search_params a) ''must_have_cooksnaps'' =
        Some (JStr (if must_have_cooksnaps a then ''true'' else ''false''))
   \<and> map_of (search_params a) ''must_have_photo_in_steps'' =
        Some (JStr (if must_have_photo_in_steps a then ''true'' else ''false''))
   \<and> (consistent s \<longrightarrow>
        request_params (sent_by e (SearchRecipes a) s) = Some (search_params a))"
  using search_recipes_sent [of s e a]
  by (simp add: key_in_dict search_params_lookup)

theorem search_recipes_parameters_witness:
  "consistent start
   \<and> map (\<lambda>kv. fst kv)
        (the (request_params
           (sent_by (always \<lparr> status_code = 200, response_text = ''{}'', json_body = Some (JObj []) \<rparr>)
              (SearchRecipes (search_defaults ''curry'')) start)))
      = [''query'', ''page'', ''per_page'', ''order'', ''must_have_cooksnaps'',
         ''minimum_number_of_cooksnaps'', ''must_have_photo_in_steps'',
         ''from_delicious_ways'', ''search_source'', ''supported_types'']
   \<and> map_of (search_params (search_defaults ''curry'')) ''must_have_cooksnaps''
      = Some (JStr ''false'')
   \<and> map_of (search_params ((search_defaults ''curry'')
         \<lparr> must_have_photo_in_steps := True, excluded_ingredients := ''egg'' \<rparr>))
        ''must_have_photo_in_steps'' = Some (JStr ''true'')
   \<and> map_of (search_params ((search_defaults ''curry'')
         \<lparr> must_have_photo_in_steps := True, excluded_ingredients := ''egg'' \<rparr>))
        ''excluded_ingredients'' = Some (JStr ''egg'')"
proof -
  let ?e = "always \<lparr> status_code = 200, response_text = ''{}'', json_body = Some (JObj []) \<rparr>"
  let ?a = "search_defaults ''curry''"
  let ?b = "(search_defaults ''curry'')
         \<lparr> must_have_photo_in_steps := True, excluded_ingredients := ''egg'' \<rparr>"
  have cs: "consistent start"
    by (simp add: consistent_def start_def fresh_world_def init_default_def init_def)
  from search_recipes_parameters [of ?a start ?e] cs
  have sent: "request_params (sent_by ?e (SearchRecipes ?a) start) = Some (search_params ?a)"
    and cook: "map_of (search_params ?a) ''must_have_cooksnaps''
        = Some (JStr (if must_have_cooksnaps ?a then ''true'' else ''false''))"
    by blast+
  have keys: "map (\<lambda>kv. fst kv) (search_params ?a)
      = [''query'', ''page'', ''per_page'', ''order'', ''must_have_cooksnaps'',
         ''minimum_number_of_cooksnaps'', ''must_have_photo_in_steps'',
         ''from_delicious_ways'', ''search_source'', ''supported_types'']"
    by (simp add: search_params_def search_defaults_def)
  from search_recipes_parameters [of ?b start ?e]
  have photo: "map_of (search_params ?b) ''must_have_photo_in_steps''
        = Some (JStr (if must_have_photo_in_steps ?b then ''true'' else ''false''))"
    and excl: "excluded_ingredients ?b \<noteq> [] \<longrightarrow>
        map_of (search_params ?b) ''excluded_ingredients'' = Some (JStr (excluded_ingredients ?b))"
    by blast+
  from cs sent keys cook photo excl show ?thesis
    by (simp add: search_defaults_def)
qed

section \<open>The life cycle of the transport (C9)\<close>

text \<open>The decoders raise TypeError, AttributeError or KeyError, never the RuntimeError of
  a closed transport.\<close>

lemma py_get_open: "py_get v k d \<noteq> Inl RuntimeError"
  by (cases v) simp_all

lemma py_getitem_open: "py_getitem v k \<noteq> Inl RuntimeError"
  by (cases v) (simp_all split: option.splits)

lemma py_contains_open: "py_contains k v \<noteq> Inl RuntimeError"
  by (cases v) simp_all

lemma py_iter_open: "py_iter v \<noteq> Inl RuntimeError"
  by (cases v) simp_all

lemma map_result_open:
  assumes "\<And>x. f x \<noteq> Inl RuntimeError"
  shows "map_result f xs \<noteq> Inl RuntimeError"
proof (induction xs)
  case Nil
  show ?case by simp
next
  case (Cons x xs)
  with assms [of x] show ?case by (auto split: sum.splits)
qed

lemma parse_each_open:
  assumes "\<And>x. f x \<noteq> Inl RuntimeError"
  shows "parse_each f d k \<noteq> Inl RuntimeError"
  using py_get_open [of d k "JList []"] py_iter_open map_result_open [of f, OF assms]
  by (auto simp: parse_each_def split: sum.splits)

lemma scan_open: "scan_attachments atts \<noteq> Inl RuntimeError"
proof (induction atts)
  case Nil
  show ?case by simp
next
  case (Cons att atts)
  with py_contains_open [of "''url''" att] py_getitem_open [of att "''url''"]
    py_get_open [of att "''image''" JNull] py_get_open [of _ "''url''" JNull]
  show ?case by (auto split: sum.splits bool.splits)
qed

lemma nested_image_url_open: "nested_image_url kvs \<noteq> Inl RuntimeError"
  using py_get_open by (simp add: nested_image_url_def Let_def)

lemma parse_ingredient_open: "parse_ingredient d \<noteq> Inl RuntimeError"
  by (cases d) simp_all

lemma parse_step_open: "parse_step d \<noteq> Inl RuntimeError"
proof (cases d)
  case (JObj kvs)
  with py_iter_open [of "dict_get kvs ''attachments'' (JList [])"] scan_open
  show ?thesis by (auto split: sum.splits)
qed simp_all

lemma parse_user_open: "parse_user d \<noteq> Inl RuntimeError"
proof (cases d)
  case (JObj kvs)
  with nested_image_url_open [of kvs] show ?thesis by (auto split: sum.splits)
qed simp_all

lemma nested_user_open: "nested_user kvs \<noteq> Inl RuntimeError"
  using parse_user_open by (auto simp: nested_user_def Let_def split: sum.splits)

lemma parse_recipe_open: "parse_recipe d \<noteq> Inl RuntimeError"
proof (cases d)
  case (JObj kvs)
  have a: "parse_each parse_ingredient (JObj kvs) ''ingredients'' \<noteq> Inl RuntimeError"
    by (rule parse_each_open) (rule parse_ingredient_open)
  have b: "parse_each parse_step (JObj kvs) ''steps'' \<noteq> Inl RuntimeError"
    by (rule parse_each_open) (rule parse_step_open)
  show ?thesis
  proof (cases "nested_image_url kvs")
    case (Inl x)
    with JObj nested_image_url_open [of kvs] show ?thesis by simp
  next
    case i: (Inr image_url)
    show ?thesis
    proof (cases "nested_user kvs")
      case (Inl x)
      with JObj i nested_user_open [of kvs] show ?thesis by simp
    next
      case u: (Inr user)
      show ?thesis
      proof (cases "parse_each parse_ingredient (JObj kvs) ''ingredients''")
        case (Inl x)
        with JObj i u a show ?thesis by simp
      next
        case g: (Inr ingredients)
        show ?thesis
        proof (cases "parse_each parse_step (JObj kvs) ''steps''")
          case (Inl x)
          with JObj i u g b show ?thesis by simp
        next
          case (Inr steps)
          with JObj i u g show ?thesis by simp
        qed
      qed
    qed
  qed
qed simp_all

lemma parse_comment_open: "parse_comment d \<noteq> Inl RuntimeError"
proof (cases d)
  case (JObj kvs)
  with nested_image_url_open [of kvs] nested_user_open [of kvs] show ?thesis
    by (auto split: sum.splits)
qed simp_all

lemma search_items_open: "search_items items \<noteq> Inl RuntimeError"
proof (induction items)
  case Nil
  show ?case by simp
next
  case (Cons item items)
  with py_get_open [of item "''type''" JNull] parse_recipe_open [of item]
  show ?case by (auto split: sum.splits simp del: parse_recipe.simps)
qed

lemma parse_extra_open: "parse_extra kvs \<noteq> Inl RuntimeError"
  using py_get_open by (auto simp: parse_extra_def Let_def split: sum.splits)

lemma parse_search_response_open: "parse_search_response d \<noteq> Inl RuntimeError"
proof (cases d)
  case (JObj kvs)
  with py_iter_open [of "dict_get kvs ''result'' (JList [])"] search_items_open
    parse_extra_open [of kvs]
  show ?thesis by (auto split: sum.splits)
qed simp_all

lemma parse_comments_response_open: "parse_comments_response d \<noteq> Inl RuntimeError"
proof (cases d)
  case (JObj kvs)
  have "parse_each parse_comment (JObj kvs) ''result'' \<noteq> Inl RuntimeError"
    by (rule parse_each_open) (rule parse_comment_open)
  with JObj show ?thesis by (auto split: sum.splits)
qed simp_all

lemma parse_users_response_open: "parse_users_response d \<noteq> Inl RuntimeError"
proof (cases d)
  case (JObj kvs)
  have "parse_each parse_user (JObj kvs) ''result'' \<noteq> Inl RuntimeError"
    by (rule parse_each_open) (rule parse_user_open)
  with JObj parse_extra_open [of kvs] show ?thesis by (auto split: sum.splits)
qed simp_all

lemma map_sum_open: "r \<noteq> Inl RuntimeError \<Longrightarrow> map_sum id k r \<noteq> Inl RuntimeError"
  by (cases r) simp_all

lemma triage_open: "triage path resp \<noteq> Inl RuntimeError"
  by (simp add: triage_def split: option.splits)

lemma after_request_open:
  assumes "consistent s" and "\<And>d. g d \<noteq> Inl RuntimeError"
  shows "fst (returning k (after_request (request e path params s) g)) \<noteq> Inl RuntimeError"
proof -
  have "fst (after_request (request e path params s) g) \<noteq> Inl RuntimeError"
    unfolding after_request_simps request_unfold [OF assms(1)]
    using triage_open assms(2) by (auto split: sum.splits)
  then show ?thesis by (simp add: returning_def map_sum_open)
qed

lemma perform_open:
  assumes "consistent s"
  shows "fst (perform e c s) \<noteq> Inl RuntimeError"
proof (cases c)
  case (SearchRecipes a)
  show ?thesis unfolding SearchRecipes perform.simps search_recipes_def
    using assms parse_search_response_open by (rule after_request_open)
next
  case (GetRecipe i)
  have "(case py_getitem d ''result'' of Inl x \<Rightarrow> Inl x | Inr r \<Rightarrow> parse_recipe r)
      \<noteq> Inl RuntimeError" for d
    using py_getitem_open [of d "''result''"] parse_recipe_open
    by (auto split: sum.splits)
  with assms show ?thesis unfolding GetRecipe perform.simps get_recipe_def
    by (rule after_request_open)
next
  case (GetSimilarRecipes i pg per)
  have "parse_each parse_recipe d ''result'' \<noteq> Inl RuntimeError" for d
    by (rule parse_each_open) (rule parse_recipe_open)
  with assms show ?thesis unfolding GetSimilarRecipes perform.simps get_similar_recipes_def
    by (rule after_request_open)
next
  case (GetComments i limit after label)
  show ?thesis unfolding GetComments perform.simps get_comments_def
    using assms parse_comments_response_open by (rule after_request_open)
next
  case (SearchUsers q pg per)
  show ?thesis unfolding SearchUsers perform.simps search_users_def
    using assms parse_users_response_open by (rule after_request_open)
next
  case (SearchKeywords q)
  have "py_get d ''result'' (JObj []) \<noteq> Inl RuntimeError" for d
    by (rule py_get_open)
  with assms show ?thesis unfolding SearchKeywords perform.simps search_keywords_def
    by (rule after_request_open)
next
  case (GetSearchHistory h)
  have "(Inr d :: exn + json) \<noteq> Inl RuntimeError" for d
    by simp
  with assms show ?thesis unfolding GetSearchHistory perform.simps get_search_history_def Let_def
    by (rule after_request_open)
qed

text \<open>The states a client can be in are closed under its operations.\<close>

lemma consistent_aenter: "consistent s \<Longrightarrow> consistent (aenter s)"
  by (cases s) (auto simp: consistent_def aenter_def AsyncClient_def)

lemma consistent_aexit: "consistent s \<Longrightarrow> consistent (aexit s)"
  by (cases s) (auto simp: consistent_def aexit_def split: option.splits)

lemma consistent_acquired: "consistent s \<Longrightarrow> consistent (acquired s)"
  by (cases s) (auto simp: consistent_def acquired_def split: option.splits)

lemma perform_state:
  assumes "consistent s"
  shows "snd (perform e c s) =
     (fst (acquired s),
      (snd (acquired s))
        \<lparr> world_uuids := Suc (world_uuids (snd s)),
          world_sent := world_sent (snd s) @ [sent_by e c s] \<rparr>)"
  using perform_unfold [OF assms, of e c] by blast

lemma consistent_perform:
  assumes "consistent s"
  shows "consistent (snd (perform e c s))"
  using consistent_acquired [OF assms]
  unfolding perform_state [OF assms] by (auto simp: consistent_def split: option.splits)

lemma consistent_step: "consistent s \<Longrightarrow> consistent (snd (step e x s))"
  by (cases x) (simp_all add: consistent_aenter consistent_aexit consistent_perform)

lemma step_open: "consistent s \<Longrightarrow> fst (step e x s) \<noteq> Some (Inl RuntimeError)"
  by (cases x) (simp_all add: perform_open)

lemma run_consistent:
  "consistent s \<Longrightarrow>
     consistent (snd (run e xs s)) \<and> Some (Inl RuntimeError) \<notin> set (fst (run e xs s))"
proof (induction xs arbitrary: s)
  case Nil
  then show ?case by simp
next
  case (Cons x xs)
  from Cons.prems have "consistent (snd (step e x s))"
    by (rule consistent_step)
  from Cons.IH [OF this] step_open [OF Cons.prems, of e x] show ?case
    by (simp del: step.simps)
qed

lemma client_after_perform:
  assumes "consistent s"
  shows "Cookpad_client (fst (snd (perform e c s))) =
     Some (case Cookpad_client (fst s) of None \<Rightarrow> world_created (snd s) | Some h \<Rightarrow> h)"
  unfolding perform_state [OF assms]
  by (simp add: acquired_def split: option.splits)

lemma aexit_releases:
  "Cookpad_client (fst (aexit s)) = None \<and> aexit (aexit s) = aexit s
   \<and> world_created (snd (aexit s)) = world_created (snd s)
   \<and> (\<forall>h. Cookpad_client (fst s) = Some h \<longrightarrow>
         world_closed (snd (aexit s)) = insert h (world_closed (snd s)))"
  by (cases s) (auto simp: aexit_def split: option.splits)

text \<open>
  C9: in every state a client can be in, scope entry acquires a new, open transport; an
  operation acquires one when the instance holds none and keeps the one it holds
  otherwise; scope exit closes the transport held and sets the handle to none, and a
  second exit changes nothing. After an exit every operation acquires a new transport,
  not the closed one, sends its request on it and does not fail with the error of a
  closed transport. Along every sequence of entries, exits and operations the state stays
  one a client can be in, and no operation fails with that error.
\<close>

theorem transport_life_cycle:
  assumes "consistent s"
  shows "Cookpad_client (fst (aenter s)) = Some (world_created (snd s))
     \<and> world_created (snd s) \<notin> world_closed (snd (aenter s))
     \<and> (Cookpad_client (fst s) = None \<longrightarrow>
          Cookpad_client (fst (snd (perform e c s))) = Some (world_created (snd s)))
     \<and> (\<forall>h. Cookpad_client (fst s) = Some h \<longrightarrow>
          Cookpad_client (fst (snd (perform e c s))) = Some h)
     \<and> Cookpad_client (fst (aexit s)) = None
     \<and> aexit (aexit s) = aexit s
     \<and> (\<forall>h. Cookpad_client (fst s) = Some h \<longrightarrow>
          world_closed (snd (aexit s)) = insert h (world_closed (snd s)))
     \<and> fst (perform e c (aexit s)) \<noteq> Inl RuntimeError
     \<and> Cookpad_client (fst (snd (perform e c (aexit s)))) = Some (world_created (snd s))
     \<and> world_created (snd s) \<notin> world_closed (snd (snd (perform e c (aexit s))))
     \<and> Cookpad_client (fst s) \<noteq> Some (world_created (snd s))
     \<and> world_sent (snd (snd (perform e c (aexit s)))) =
          world_sent (snd s) @ [sent_by e c (aexit s)]
     \<and> consistent (snd (run e ops s))
     \<and> Some (Inl RuntimeError) \<notin> set (fst (run e ops s))"
proof -
  have ce: "consistent (aexit s)"
    using assms by (rule consistent_aexit)
  have enter: "Cookpad_client (fst (aenter s)) = Some (world_created (snd s))
     \<and> world_created (snd s) \<notin> world_closed (snd (aenter s))"
    using assms by (cases s) (auto simp: consistent_def aenter_def AsyncClient_def)
  have lazy: "Cookpad_client (fst s) = None \<longrightarrow>
          Cookpad_client (fst (snd (perform e c s))) = Some (world_created (snd s))"
    by (simp add: client_after_perform [OF assms])
  have keep: "\<forall>h. Cookpad_client (fst s) = Some h \<longrightarrow>
          Cookpad_client (fst (snd (perform e c s))) = Some h"
    by (simp add: client_after_perform [OF assms])
  note ex = aexit_releases [of s]
  have again: "Cookpad_client (fst (snd (perform e c (aexit s)))) = Some (world_created (snd s))"
    using ex by (simp add: client_after_perform [OF ce])
  have "consistent (snd (perform e c (aexit s)))"
    using ce by (rule consistent_perform)
  with again have opn: "world_created (snd s) \<notin> world_closed (snd (snd (perform e c (aexit s))))"
    by (simp add: consistent_def)
  have new: "Cookpad_client (fst s) \<noteq> Some (world_created (snd s))"
    using assms by (auto simp: consistent_def)
  have sent: "world_sent (snd (snd (perform e c (aexit s)))) =
          world_sent (snd s) @ [sent_by e c (aexit s)]"
    unfolding perform_state [OF ce]
    by (cases s) (simp add: aexit_def acquired_def split: option.splits)
  from enter lazy keep ex again opn new sent perform_open [OF ce, of e c]
    run_consistent [OF assms, of e ops]
  show ?thesis by blast
qed

theorem transport_life_cycle_witness:
  "consistent start
   \<and> Cookpad_client (fst (aenter start)) = Some 0
   \<and> Cookpad_client (fst (snd (perform (always ok_response) (SearchKeywords ''a'') start)))
       = Some 0
   \<and> Cookpad_client (fst (aexit (aenter start))) = None
   \<and> world_closed (snd (aexit (aenter start))) = {0}
   \<and> Cookpad_client
        (fst (snd (perform (always ok_response) (SearchKeywords ''a'') (aexit (aenter start)))))
       = Some 1
   \<and> fst (perform (always ok_response) (SearchKeywords ''a'') (aexit (aenter start)))
       \<noteq> Inl RuntimeError
   \<and> Some (Inl RuntimeError) \<notin> set (fst (run (always ok_response)
        [Enter, Call (SearchKeywords ''a''), Exit, Exit, Call (GetRecipe 1), Exit,
         Call (GetRecipe 1)] start))"
proof -
  let ?e = "always ok_response"
  let ?c = "SearchKeywords ''a''"
  have cs: "consistent start"
    by (simp add: consistent_def start_def fresh_world_def init_default_def init_def)
  have w: "world_created (snd start) = 0" "world_closed (snd start) = {}"
    "Cookpad_client (fst start) = None"
    by (simp_all add: start_def fresh_world_def init_default_def init_def)
  note t0 = transport_life_cycle [OF cs, of ?e ?c
      "[Enter, Call (SearchKeywords ''a''), Exit, Exit, Call (GetRecipe 1), Exit,
        Call (GetRecipe 1)]"]
  from t0 w have a: "Cookpad_client (fst (aenter start)) = Some 0"
    and b: "Cookpad_client (fst (snd (perform ?e ?c start))) = Some 0"
    and r: "Some (Inl RuntimeError) \<notin> set (fst (run ?e
        [Enter, Call (SearchKeywords ''a''), Exit, Exit, Call (GetRecipe 1), Exit,
         Call (GetRecipe 1)] start))"
    by simp_all
  from transport_life_cycle [OF cs, of ?e ?c "[Enter]"]
  have c1: "consistent (aenter start)"
    by simp
  have w1: "world_created (snd (aenter start)) = 1" "world_closed (snd (aenter start)) = {}"
    by (simp_all add: aenter_def AsyncClient_def start_def fresh_world_def)
  note t1 = transport_life_cycle [OF c1, of ?e ?c "[]"]
  from t1 a w1 have d: "Cookpad_client (fst (aexit (aenter start))) = None"
    and f: "world_closed (snd (aexit (aenter start))) = {0}"
    and g: "Cookpad_client (fst (snd (perform ?e ?c (aexit (aenter start))))) = Some 1"
    and h: "fst (perform ?e ?c (aexit (aenter start))) \<noteq> Inl RuntimeError"
    by simp_all
  from cs a b d f g h r show ?thesis by blast
qed

section \<open>A response without \<^verbatim>\<open>result\<close> (C10)\<close>

text \<open>
  C10: on a successful response (status below 400) whose JSON body is an object without
  the key \<^verbatim>\<open>result\<close>, \<open>get_recipe\<close> raises KeyError, and \<open>get_similar_recipes\<close> returns
  the empty list.
\<close>

theorem result_key_missing:
  assumes "consistent s"
  shows "(status_code (answer e (GetRecipe i) s) < 400
          \<and> json_body (answer e (GetRecipe i) s) = Some (JObj kvs)
          \<and> map_of kvs ''result'' = None \<longrightarrow>
          fst (get_recipe e i s) = Inl KeyError)
       \<and> (status_code (answer e (GetSimilarRecipes i pg per) s) < 400
          \<and> json_body (answer e (GetSimilarRecipes i pg per) s) = Some (JObj kvs)
          \<and> map_of kvs ''result'' = None \<longrightarrow>
          fst (get_similar_recipes e i pg per s) = Inr [])"
proof (intro conjI impI)
  assume h: "status_code (answer e (GetRecipe i) s) < 400
          \<and> json_body (answer e (GetRecipe i) s) = Some (JObj kvs)
          \<and> map_of kvs ''result'' = None"
  then have t: "triage (''/recipes/'' @ show_int i) (answer e (GetRecipe i) s) = Inr (JObj kvs)"
    by (simp add: triage_success)
  have "perform e (GetRecipe i) s =
      returning Recipe_outcome
        (after_request (request e (''/recipes/'' @ show_int i) None s)
           (\<lambda>data. case py_getitem data ''result'' of Inl x \<Rightarrow> Inl x | Inr r \<Rightarrow> parse_recipe r))"
    by (simp add: get_recipe_def)
  from op_result(2) [OF assms this] h show "fst (get_recipe e i s) = Inl KeyError"
    unfolding get_recipe_def t by simp
next
  assume h: "status_code (answer e (GetSimilarRecipes i pg per) s) < 400
          \<and> json_body (answer e (GetSimilarRecipes i pg per) s) = Some (JObj kvs)
          \<and> map_of kvs ''result'' = None"
  then have t: "triage (''/recipes/'' @ show_int i @ ''/similar_recipes'')
      (answer e (GetSimilarRecipes i pg per) s) = Inr (JObj kvs)"
    by (simp add: triage_success)
  have "perform e (GetSimilarRecipes i pg per) s =
      returning Recipes_outcome
        (after_request
           (request e (''/recipes/'' @ show_int i @ ''/similar_recipes'')
              (Some [(''page'', JInt pg), (''per_page'', JInt per)]) s)
           (\<lambda>data. parse_each parse_recipe data ''result''))"
    by (simp add: get_similar_recipes_def)
  from op_result(2) [OF assms this] h show "fst (get_similar_recipes e i pg per s) = Inr []"
    unfolding get_similar_recipes_def t by (simp add: parse_each_def dict_get_def)
qed

theorem result_key_missing_witness:
  "consistent start
   \<and> fst (get_recipe
        (always \<lparr> status_code = 200, response_text = ''{}'', json_body = Some (JObj []) \<rparr>)
        1 start) = Inl KeyError
   \<and> fst (get_similar_recipes
        (always \<lparr> status_code = 200, response_text = ''{}'', json_body = Some (JObj []) \<rparr>)
        1 1 30 start) = Inr []"
proof -
  let ?e = "always \<lparr> status_code = 200, response_text = ''{}'', json_body = Some (JObj []) \<rparr>"
  have cs: "consistent start"
    by (simp add: consistent_def start_def fresh_world_def init_default_def init_def)
  have a: "answer ?e c start
      = \<lparr> status_code = 200, response_text = ''{}'', json_body = Some (JObj []) \<rparr>" for c
    by (simp add: answer_def always_def)
  from result_key_missing [OF cs, of ?e 1 "[]" 1 30] show ?thesis
    unfolding a using cs by simp
qed

end
